theory Spec2Isabelle
  imports Main
begin

section \<open>Paths: Go's path/filepath on a Unix system\<close>

text \<open>
  Go strings are byte sequences; a path is a \<open>string\<close> here and the separator is the
  byte \<open>/\<close>. The functions below are the ones \<open>site.go\<close> calls from the standard
  package \<open>path/filepath\<close>. They belong to the Go library, not to the repository,
  and are written here from the documented behaviour of the package, on the elements of
  a path; the section on paths below checks them on examples from the package's own
  tests.
\<close>

definition Separator :: char where
  "Separator = CHR ''/''"

text \<open>\<open>strings.Split(path, "/")\<close>: the elements between separators, empty ones kept.\<close>

fun splitSep :: "string \<Rightarrow> string list" where
  "splitSep [] = [[]]"
| "splitSep (c # cs) =
     (if c = Separator then [] # splitSep cs
      else (c # hd (splitSep cs)) # tl (splitSep cs))"

text \<open>\<open>strings.Join(elems, "/")\<close>.\<close>

fun joinSep :: "string list \<Rightarrow> string" where
  "joinSep [] = []"
| "joinSep [x] = x"
| "joinSep (x # y # ys) = x @ Separator # joinSep (y # ys)"

text \<open>
  One element of \<open>filepath.Clean\<close>'s scan. The output built so far is kept as the list
  of its elements, last written first. An empty element and \<open>.\<close> are dropped; \<open>..\<close>
  removes the last real element, is kept at the front of a path that is not rooted, and
  is dropped at the root; any other element is appended.
\<close>

definition cleanStep :: "bool \<Rightarrow> string list \<Rightarrow> string \<Rightarrow> string list" where
  "cleanStep rooted out e =
     (if e = [] \<or> e = ''.'' then out
      else if e = ''..'' then
        (case out of
           [] \<Rightarrow> if rooted then [] else [e]
         | t # rest \<Rightarrow> if t \<noteq> ''..'' then rest else if rooted then out else e # out)
      else e # out)"

text \<open>
  \<open>filepath.Clean\<close>: the empty path is \<open>.\<close>; a rooted path keeps its leading
  separator; a path that cleans to nothing and is not rooted is \<open>.\<close>.
\<close>

definition Clean :: "string \<Rightarrow> string" where
  "Clean path =
     (if path = [] then ''.''
      else
        (let rooted = (hd path = Separator);
             out = rev (foldl (cleanStep rooted) [] (splitSep path))
         in if rooted then Separator # joinSep out
            else if out = [] then ''.''
            else joinSep out))"

text \<open>\<open>filepath.IsAbs\<close> on Unix: the path starts with the separator.\<close>

definition IsAbs :: "string \<Rightarrow> bool" where
  "IsAbs path = (case path of [] \<Rightarrow> False | c # _ \<Rightarrow> c = Separator)"

text \<open>
  \<open>filepath.Join\<close>: leading empty elements are ignored, the rest is joined with the
  separator and cleaned; with only empty elements the result is the empty string.
\<close>

fun Join :: "string list \<Rightarrow> string" where
  "Join [] = []"
| "Join (e # es) = (if e = [] then Join es else Clean (joinSep (e # es)))"

text \<open>
  \<open>filepath.Dir\<close>: everything up to and including the last separator, cleaned.
\<close>

definition Dir :: "string \<Rightarrow> string" where
  "Dir path = Clean (rev (dropWhile (\<lambda>c. c \<noteq> Separator) (rev path)))"

text \<open>
  \<open>filepath.Base\<close>: \<open>.\<close> for the empty path; otherwise trailing separators are
  stripped and the last element is returned, or \<open>/\<close> when nothing is left.
\<close>

definition Base :: "string \<Rightarrow> string" where
  "Base path =
     (if path = [] then ''.''
      else
        (let stripped = rev (dropWhile (\<lambda>c. c = Separator) (rev path));
             elem = rev (takeWhile (\<lambda>c. c \<noteq> Separator) (rev stripped))
         in if elem = [] then [Separator] else elem))"

section \<open>The site model\<close>

text \<open>
  The structures of \<open>site.go\<close>. A \<open>pages.Document\<close> is an interface value; here it
  is the record of what its methods return: \<open>SourcePath()\<close> and \<open>Permalink()\<close>
  (named \<open>Source()\<close> and \<open>URL()\<close> in the later copy of the file), whether the
  dynamic type also implements \<open>pages.Page\<close> (the type assertion in \<open>Pages\<close>), and
  \<open>ident\<close>, the identity of the value (two documents with equal attributes are still
  two documents).
\<close>

datatype val = VString string | VOther nat

record Document =
  ident :: nat
  SourcePath :: string
  Permalink :: string
  IsPage :: bool

datatype Collection = Collection (Name: string) (members: "Document list")

datatype Manager = Manager (TemplateEngine: nat)

text \<open>
  The fields of \<open>config.Config\<close> that \<open>site.go\<close> reads or writes. The pattern list
  \<open>Exclude\<close> is named \<open>Exclude_cfg\<close>, the name \<open>Exclude\<close> being the method's. A Go
  map can be nil: \<open>Variables\<close> is \<open>None\<close> then.
\<close>

record Config =
  Source :: string
  Destination :: string
  Include :: "string list"
  Exclude_cfg :: "string list"
  KeepFiles :: "string list"
  Plugins :: "string list"
  AbsoluteURL :: string
  Variables :: "(string \<rightharpoonup> val) option"

text \<open>
  \<open>Site\<close>, without the two \<open>sync.Once\<close> gates. \<open>renderer\<close> is a pointer and
  \<open>drop_val\<close> (the field \<open>drop\<close>) a map: both are nil (\<open>None\<close>) until first use.
\<close>

record Site =
  Collections :: "Collection list"
  Routes :: "string \<rightharpoonup> Document"
  config :: Config
  data :: "string \<rightharpoonup> val"
  flags :: "string \<rightharpoonup> val"
  themeDir :: string
  docs :: "Document list"
  nonCollectionPages :: "Document list"
  renderer :: "Manager option"
  drop_val :: "(string \<rightharpoonup> val) option"

text \<open>
  The panics of \<open>site.go\<close> (an index out of range, an assignment into a nil map, the
  explicit panic of \<open>RendererManager\<close>, a method call on a nil \<open>Document\<close>) and
  the error of \<open>filepath.Rel\<close>.
\<close>

datatype error =
    IndexOutOfRange
  | NilMapAssignment
  | UninitializedRenderingManager
  | NilDocument
  | RelError

definition SourceDir :: "Site \<Rightarrow> string" where
  "SourceDir s = Source (config s)"

section \<open>Exclude\<close>

text \<open>
  \<open>excludeFileRE\<close> is the regular expression \<open>^[#~]|^\..|~$\<close>; \<open>MatchString\<close>
  holds when the string starts with \<open>#\<close> or \<open>~\<close>, or starts with a dot followed by
  one more character other than a newline, or ends with \<open>~\<close>.
\<close>

definition excludeFileRE :: "string \<Rightarrow> bool" where
  "excludeFileRE b =
     ((case b of [] \<Rightarrow> False | c # _ \<Rightarrow> c = CHR ''#'' \<or> c = CHR ''~'')
      \<or> (case b of c # d # _ \<Rightarrow> c = CHR ''.'' \<and> d \<noteq> CHR 0x0A | _ \<Rightarrow> False)
      \<or> (b \<noteq> [] \<and> last b = CHR ''~''))"

text \<open>
  The third case of the switch, \<open>dir != "." && base[0] == '_'\<close>: the index expression
  is evaluated only when the first conjunct holds, and panics on an empty string.
\<close>

definition underscoreCase :: "string \<Rightarrow> string \<Rightarrow> error + bool" where
  "underscoreCase dir base =
     (if dir \<noteq> ''.'' then
        (case base of [] \<Rightarrow> Inl IndexOutOfRange | c # _ \<Rightarrow> Inr (c = CHR ''_''))
      else Inr False)"

text \<open>
  \<open>Exclude\<close>. The helper \<open>utils.MatchList\<close> is not part of \<open>site.go\<close>: it is the
  parameter \<open>MatchList\<close>, a pattern list and a name to a truth value. The loop has no
  bound of its own (the parent of \<open>/\<close> is \<open>/\<close>), so not returning is the value
  \<open>None\<close>.
\<close>

partial_function (option) Exclude ::
  "(string list \<Rightarrow> string \<Rightarrow> bool) \<Rightarrow> Site \<Rightarrow> string \<Rightarrow> (error + bool) option" where
  "Exclude MatchList s siteRel =
     (if siteRel \<noteq> ''.'' then
        (let dir = Dir siteRel; base = Base siteRel in
         if MatchList (Include (config s)) siteRel then Some (Inr False)
         else if MatchList (Exclude_cfg (config s)) siteRel then Some (Inr True)
         else (case underscoreCase dir base of
                 Inl e \<Rightarrow> Some (Inl e)
               | Inr underscore \<Rightarrow>
                   if underscore then Some (Inr True)
                   else if excludeFileRE base then Some (Inr True)
                   else Exclude MatchList s dir))
      else Some (Inr False))"

declare Exclude.simps [code]

text \<open>
  The walk as the specification words it: the levels of a path are the path itself and
  its successive parents, up to but not including the root \<open>.\<close>; at each level the
  rules are tried in a fixed precedence; the first rule that fires at the first level
  where one fires decides, and a walk on which none fires does not exclude. The levels
  are defined for site-relative paths (an absolute path has none).
\<close>

definition startsWith :: "string \<Rightarrow> char \<Rightarrow> bool" where
  "startsWith b c = (case b of [] \<Rightarrow> False | d # _ \<Rightarrow> d = c)"

definition levelRule ::
  "(string list \<Rightarrow> string \<Rightarrow> bool) \<Rightarrow> Config \<Rightarrow> string \<Rightarrow> bool option" where
  "levelRule MatchList cfg level =
     (if MatchList (Include cfg) level then Some False
      else if MatchList (Exclude_cfg cfg) level then Some True
      else if Dir level \<noteq> ''.'' \<and> startsWith (Base level) (CHR ''_'') then Some True
      else if excludeFileRE (Base level) then Some True
      else None)"

definition levelMeasure :: "string \<Rightarrow> nat" where
  "levelMeasure p = (if p = ''.'' then 0 else Suc (length p))"

function levels :: "string \<Rightarrow> string list" where
  "levels p = (if p = ''.'' \<or> IsAbs p then [] else p # levels (Dir p))"
  by pat_completeness auto

fun firstFiring :: "bool option list \<Rightarrow> bool" where
  "firstFiring [] = False"
| "firstFiring (None # rs) = firstFiring rs"
| "firstFiring (Some b # rs) = b"

definition excludeWalk ::
  "(string list \<Rightarrow> string \<Rightarrow> bool) \<Rightarrow> Config \<Rightarrow> string \<Rightarrow> bool" where
  "excludeWalk MatchList cfg p = firstFiring (map (levelRule MatchList cfg) (levels p))"

text \<open>Sizes used to bound \<open>Clean\<close>: of a list of elements, and of one element.\<close>

definition elemsWeight :: "string list \<Rightarrow> nat" where
  "elemsWeight xs = sum_list (map (\<lambda>c. Suc (length c)) xs)"

definition elemWeight :: "string \<Rightarrow> nat" where
  "elemWeight e = (if e = [] then 0 else Suc (length e))"

section \<open>Routing queries\<close>

text \<open>
  A map read with the comma-ok form, \<open>p, found = m[key]\<close>: the zero value (a nil
  \<open>Document\<close>, \<open>None\<close>) and \<open>false\<close> for a missing key.
\<close>

definition commaOk :: "(string \<rightharpoonup> Document) \<Rightarrow> string \<Rightarrow> Document option \<times> bool" where
  "commaOk m key = (m key, m key \<noteq> None)"

text \<open>
  \<open>URLPage\<close> as in the later copy of the file (\<open>src/unnamed/part_000\<close>, lines 206 to
  219), with the fallback for extensionless URLs. The last key is
  \<open>filepath.Join(urlpath + ".html")\<close>: \<open>Join\<close> of a single element.
\<close>

definition URLPage :: "Site \<Rightarrow> string \<Rightarrow> Document option \<times> bool" where
  "URLPage s urlpath =
     (let r = commaOk (Routes s) urlpath;
          r = (if \<not> snd r then commaOk (Routes s) (Join [urlpath, ''index.html'']) else r);
          r = (if \<not> snd r then commaOk (Routes s) (Join [urlpath, ''index.htm'']) else r);
          r = (if \<not> snd r then commaOk (Routes s) (Join [urlpath @ ''.html'']) else r)
      in r)"

text \<open>
  \<open>URLPage\<close> as in \<open>src/site/site.go\<close> (lines 196 to 205): the same function without
  the last lookup.
\<close>

definition URLPage_site :: "Site \<Rightarrow> string \<Rightarrow> Document option \<times> bool" where
  "URLPage_site s urlpath =
     (let r = commaOk (Routes s) urlpath;
          r = (if \<not> snd r then commaOk (Routes s) (Join [urlpath, ''index.html'']) else r);
          r = (if \<not> snd r then commaOk (Routes s) (Join [urlpath, ''index.htm'']) else r)
      in r)"

text \<open>
  The fallback chain as the specification words it: the keys are tried in order, the
  first one present in the table wins, and with none present the result is not found.
\<close>

fun firstMatch :: "(string \<rightharpoonup> Document) \<Rightarrow> string list \<Rightarrow> Document option \<times> bool" where
  "firstMatch routes [] = (None, False)"
| "firstMatch routes (k # ks) =
     (case routes k of Some d \<Rightarrow> (Some d, True) | None \<Rightarrow> firstMatch routes ks)"

text \<open>
  \<open>Pages\<close>: the documents of \<open>docs\<close> whose dynamic type is a \<open>Page\<close>, in order.
\<close>

definition Pages :: "Site \<Rightarrow> Document list" where
  "Pages s = filter IsPage (docs s)"

text \<open>
  \<open>FilePathPage\<close> ranges over the map \<open>Routes\<close>, and Go leaves the order of that
  iteration unspecified: \<open>order\<close> is the order in which one call visits the keys.
  \<open>filepath.Rel\<close> is the parameter \<open>Rel\<close>, base and target to an error or the
  relative path.
\<close>

definition routed :: "Site \<Rightarrow> string list \<Rightarrow> Document list" where
  "routed s order = List.map_filter (Routes s) order"

fun FilePathPage_scan ::
  "(string \<Rightarrow> string \<Rightarrow> error + string) \<Rightarrow> string \<Rightarrow> Document list \<Rightarrow> string
     \<Rightarrow> Document option \<times> bool" where
  "FilePathPage_scan Rel src [] rel = (None, False)"
| "FilePathPage_scan Rel src (p # ps) rel =
     (if SourcePath p \<noteq> [] then
        (case Rel src (SourcePath p) of
           Inr r \<Rightarrow> if r = rel then (Some p, True) else FilePathPage_scan Rel src ps rel
         | Inl err \<Rightarrow> FilePathPage_scan Rel src ps rel)
      else FilePathPage_scan Rel src ps rel)"

definition FilePathPage ::
  "(string \<Rightarrow> string \<Rightarrow> error + string) \<Rightarrow> string list \<Rightarrow> Site \<Rightarrow> string
     \<Rightarrow> Document option \<times> bool" where
  "FilePathPage Rel order s rel = FilePathPage_scan Rel (SourceDir s) (routed s order) rel"

text \<open>
  \<open>FilenameURLPath\<close>. A method call on a nil \<open>Document\<close> would panic; the branch is
  kept, and is shown below never to be taken.
\<close>

definition FilenameURLPath ::
  "(string \<Rightarrow> string \<Rightarrow> error + string) \<Rightarrow> string list \<Rightarrow> Site \<Rightarrow> string
     \<Rightarrow> error + string \<times> bool" where
  "FilenameURLPath Rel order s relpath =
     (case FilePathPage Rel order s relpath of
        (p, found) \<Rightarrow>
          if found then (case p of None \<Rightarrow> Inl NilDocument | Some d \<Rightarrow> Inr (Permalink d, True))
          else Inr ([], False))"

text \<open>
  Modelled from the spec: \<open>utils.MustRel\<close> is not in the source files at hand. The
  specification speaks of paths made relative to the source root; by its name and use the
  helper is \<open>filepath.Rel\<close> with the error turned into a panic, and is modelled so.
\<close>

definition MustRel ::
  "(string \<Rightarrow> string \<Rightarrow> error + string) \<Rightarrow> string \<Rightarrow> string \<Rightarrow> error + string" where
  "MustRel Rel base targ = Rel base targ"

fun FilenameURLs_loop ::
  "(string \<Rightarrow> string \<Rightarrow> error + string) \<Rightarrow> string \<Rightarrow> Document list \<Rightarrow> (string \<rightharpoonup> string)
     \<Rightarrow> error + (string \<rightharpoonup> string)" where
  "FilenameURLs_loop Rel src [] urls = Inr urls"
| "FilenameURLs_loop Rel src (page # ps) urls =
     (case MustRel Rel src (SourcePath page) of
        Inl err \<Rightarrow> Inl err
      | Inr key \<Rightarrow> FilenameURLs_loop Rel src ps (urls(key \<mapsto> Permalink page)))"

definition FilenameURLs ::
  "(string \<Rightarrow> string \<Rightarrow> error + string) \<Rightarrow> Site \<Rightarrow> error + (string \<rightharpoonup> string)" where
  "FilenameURLs Rel s = FilenameURLs_loop Rel (SourceDir s) (Pages s) Map.empty"

section \<open>The rendering manager and the absolute URL\<close>

definition RendererManager :: "Site \<Rightarrow> error + Manager" where
  "RendererManager s =
     (case renderer s of
        None \<Rightarrow> Inl UninitializedRenderingManager
      | Some m \<Rightarrow> Inr m)"

text \<open>
  \<open>SetAbsoluteURL\<close> as in \<open>src/site/site.go\<close>, statement by statement. The site is
  passed in and returned as the call leaves it, with the panic if there is one: the
  assignment \<open>s.config.Variables["url"] = url\<close> panics on a nil map, after
  \<open>AbsoluteURL\<close> has been written; the write to \<open>drop\<close> is guarded by the nil test.
\<close>

definition SetAbsoluteURL :: "string \<Rightarrow> Site \<Rightarrow> error option \<times> Site" where
  "SetAbsoluteURL url s =
     (let s1 = s\<lparr>config := (config s)\<lparr>AbsoluteURL := url\<rparr>\<rparr>
      in case Variables (config s1) of
           None \<Rightarrow> (Some NilMapAssignment, s1)
         | Some vars \<Rightarrow>
             (let s2 = s1\<lparr>config := (config s1)\<lparr>Variables := Some (vars(''url'' \<mapsto> VString url))\<rparr>\<rparr>
              in case drop_val s2 of
                   None \<Rightarrow> (None, s2)
                 | Some d \<Rightarrow> (None, s2\<lparr>drop_val := Some (d(''url'' \<mapsto> VString url))\<rparr>)))"

text \<open>
  \<open>SetAbsoluteURL\<close> as in the later copy (\<open>src/unnamed/part_000\<close>, lines 115 to
  121), where the variable is written by \<open>s.cfg.Set("url", url)\<close>. The method
  \<open>Set\<close> of \<open>config.Config\<close> is not in the source files at hand: it is the
  parameter \<open>Set\<close>, a key, a value and the configuration to the configuration it
  leaves.
\<close>

definition SetAbsoluteURL_cfgSet ::
  "(string \<Rightarrow> val \<Rightarrow> Config \<Rightarrow> Config) \<Rightarrow> string \<Rightarrow> Site \<Rightarrow> Site" where
  "SetAbsoluteURL_cfgSet Set url s =
     (let s1 = s\<lparr>config := (config s)\<lparr>AbsoluteURL := url\<rparr>\<rparr>;
          s2 = s1\<lparr>config := Set ''url'' (VString url) (config s1)\<rparr>
      in case drop_val s2 of
           None \<Rightarrow> s2
         | Some d \<Rightarrow> s2\<lparr>drop_val := Some (d(''url'' \<mapsto> VString url))\<rparr>)"

section \<open>Plugin hooks\<close>

text \<open>
  \<open>runHooks\<close>. The registry \<open>plugins.Lookup\<close> is the parameter \<open>Lookup\<close>. A callback
  receives a plugin and may change what it closes over (the template engine): it takes
  that state and returns its error (\<open>None\<close> for nil) and the new state.
\<close>

fun runHooks_loop ::
  "(string \<Rightarrow> 'p option) \<Rightarrow> ('p \<Rightarrow> 'st \<Rightarrow> 'e option \<times> 'st) \<Rightarrow> string list \<Rightarrow> 'st
     \<Rightarrow> 'e option \<times> 'st" where
  "runHooks_loop Lookup h [] st = (None, st)"
| "runHooks_loop Lookup h (name # names) st =
     (case Lookup name of
        Some p \<Rightarrow>
          (case h p st of
             (Some err, st') \<Rightarrow> (Some err, st')
           | (None, st') \<Rightarrow> runHooks_loop Lookup h names st')
      | None \<Rightarrow> runHooks_loop Lookup h names st)"

definition runHooks ::
  "(string \<Rightarrow> 'p option) \<Rightarrow> ('p \<Rightarrow> 'st \<Rightarrow> 'e option \<times> 'st) \<Rightarrow> Site \<Rightarrow> 'st
     \<Rightarrow> 'e option \<times> 'st" where
  "runHooks Lookup h s st = runHooks_loop Lookup h (Plugins (config s)) st"

text \<open>
  A callback that also records each call it receives, with the plugin and the error it
  returned: the record of a dispatch is the list of its invocations, in order.
\<close>

definition logged ::
  "('p \<Rightarrow> 'st \<Rightarrow> 'e option \<times> 'st) \<Rightarrow> 'p \<Rightarrow> 'st \<times> ('p \<times> 'e option) list
     \<Rightarrow> 'e option \<times> 'st \<times> ('p \<times> 'e option) list" where
  "logged h p sl =
     (case h p (fst sl) of (err, st') \<Rightarrow> (err, (st', snd sl @ [(p, err)])))"

text \<open>
  What one dispatch did, against the list of the plugins that the configured names
  resolve to, in order: the plugins \<open>ok\<close> were invoked and returned nil; with no error
  nothing is left; with an error \<open>e\<close> the next plugin was invoked and returned \<open>e\<close>,
  and those after it were not invoked. \<open>calls\<close> is the record of the invocations.
\<close>

definition dispatched ::
  "'p list \<Rightarrow> 'e option \<Rightarrow> ('p \<times> 'e option) list \<Rightarrow> 'p list \<Rightarrow> 'p list \<Rightarrow> bool" where
  "dispatched resolved err calls ok rest \<longleftrightarrow>
     resolved = ok @ rest
     \<and> (err = None \<longrightarrow> rest = [] \<and> calls = map (\<lambda>p. (p, None)) ok)
     \<and> (\<forall>e. err = Some e \<longrightarrow>
           (\<exists>p rest'. rest = p # rest' \<and> calls = map (\<lambda>p. (p, None)) ok @ [(p, Some e)]))"

section \<open>Concrete inputs\<close>

text \<open>
  Instances of the two parameters for the closed examples. A pattern without glob
  metacharacters and without a trailing separator matches a name exactly when it is that
  name: \<open>MatchLiteral\<close> is \<open>MatchList\<close> on such pattern lists.
\<close>

definition MatchLiteral :: "string list \<Rightarrow> string \<Rightarrow> bool" where
  "MatchLiteral patterns name = (name \<in> set patterns)"

text \<open>
  For a clean base and a clean target strictly below it, \<open>filepath.Rel\<close> returns the
  rest of the target. \<open>RelUnder\<close> is \<open>Rel\<close> on those inputs only and reports every
  other pair as an error; the theorems below hold for any \<open>Rel\<close>.
\<close>

definition RelUnder :: "string \<Rightarrow> string \<Rightarrow> error + string" where
  "RelUnder base targ =
     (if Clean base = base \<and> Clean targ = targ
         \<and> take (Suc (length base)) targ = base @ [Separator]
         \<and> Suc (length base) < length targ
      then Inr (List.drop (Suc (length base)) targ)
      else Inl RelError)"

definition config0 :: Config where
  "config0 = \<lparr>Source = ''src'', Destination = ''_site'', Include = [], Exclude_cfg = [],
     KeepFiles = [], Plugins = [], AbsoluteURL = [], Variables = Some Map.empty\<rparr>"

definition site0 :: Site where
  "site0 = \<lparr>Collections = [], Routes = Map.empty, config = config0, data = Map.empty,
     flags = Map.empty, themeDir = [], docs = [], nonCollectionPages = [],
     renderer = None, drop_val = None\<rparr>"

text \<open>Sites that differ from \<open>site0\<close> in their include and exclude lists.\<close>

definition siteInclude :: Site where
  "siteInclude = site0\<lparr>config := config0\<lparr>Include := [''.htaccess''], Exclude_cfg := [''vendor'']\<rparr>\<rparr>"

definition siteBoth :: Site where
  "siteBoth = site0\<lparr>config := config0\<lparr>Include := [''a/b''], Exclude_cfg := [''a/b'']\<rparr>\<rparr>"

definition siteLevels :: Site where
  "siteLevels = site0\<lparr>config := config0\<lparr>Include := [''a''], Exclude_cfg := [''a/b'']\<rparr>\<rparr>"

text \<open>
  A site with one output page at \<open>/blog.html\<close>, and the same page registered under
  a key that is not a clean path.
\<close>

definition docBlog :: Document where
  "docBlog = \<lparr>ident = 1, SourcePath = ''src/blog.md'', Permalink = ''/blog.html'', IsPage = True\<rparr>"

definition siteBlog :: Site where
  "siteBlog = site0\<lparr>Routes := [''/blog.html'' \<mapsto> docBlog], docs := [docBlog]\<rparr>"

definition siteUnclean :: Site where
  "siteUnclean = site0\<lparr>Routes := [''//blog.html'' \<mapsto> docBlog], docs := [docBlog]\<rparr>"

text \<open>
  Documents under the source directory \<open>src\<close>: two pages built from the same file, a
  static file, and a page that is not output. \<open>siteDup\<close> routes the two pages of one
  file; \<open>siteMixed\<close> routes a page and the static file and also holds the page that
  is not output.
\<close>

definition docA :: Document where
  "docA = \<lparr>ident = 2, SourcePath = ''src/a.md'', Permalink = ''/a/'', IsPage = True\<rparr>"

definition docCopy :: Document where
  "docCopy = \<lparr>ident = 3, SourcePath = ''src/a.md'', Permalink = ''/copy/'', IsPage = True\<rparr>"

definition docCss :: Document where
  "docCss = \<lparr>ident = 4, SourcePath = ''src/style.css'', Permalink = ''/style.css'', IsPage = False\<rparr>"

definition docDraft :: Document where
  "docDraft = \<lparr>ident = 5, SourcePath = ''src/draft.md'', Permalink = ''/draft.html'', IsPage = True\<rparr>"

definition siteDup :: Site where
  "siteDup = site0\<lparr>Routes := [''/a/'' \<mapsto> docA, ''/copy/'' \<mapsto> docCopy], docs := [docA, docCopy]\<rparr>"

definition siteMixed :: Site where
  "siteMixed = site0\<lparr>Routes := [''/a/'' \<mapsto> docA, ''/style.css'' \<mapsto> docCss],
     docs := [docA, docCss, docDraft]\<rparr>"

text \<open>
  A site whose renderer and drop dictionary are set; a site with four configured plugin
  names, of which the registry knows three; and a callback that adds the plugin to the
  engine state and fails at plugin 3.
\<close>

definition siteReady :: Site where
  "siteReady = site0\<lparr>renderer := Some (Manager 7),
     drop_val := Some [''title'' \<mapsto> VString ''Blog'', ''url'' \<mapsto> VString ''http://old'']\<rparr>"

definition sitePlugins :: Site where
  "sitePlugins = site0\<lparr>config := config0\<lparr>Plugins := [''a'', ''b'', ''c'', ''d'']\<rparr>\<rparr>"

definition registry :: "string \<Rightarrow> nat option" where
  "registry = [''a'' \<mapsto> 1, ''c'' \<mapsto> 3, ''d'' \<mapsto> 4]"

definition hookFailsAt3 :: "nat \<Rightarrow> nat \<Rightarrow> string option \<times> nat" where
  "hookFailsAt3 p engine = (if p = 3 then Some ''boom'' else None, engine + p)"

text \<open>
  A site whose configuration has a nil variables map; an instance of \<open>Set\<close> that
  writes the variables map, allocating it when nil; a page whose source path is absolute,
  which cannot be made relative to the relative source directory \<open>src\<close>, and a site
  that holds it between two other pages.
\<close>

definition siteNilVars :: Site where
  "siteNilVars = site0\<lparr>config := config0\<lparr>Variables := None\<rparr>\<rparr>"

definition SetVariable :: "string \<Rightarrow> val \<Rightarrow> Config \<Rightarrow> Config" where
  "SetVariable key v cfg =
     cfg\<lparr>Variables := Some ((case Variables cfg of None \<Rightarrow> Map.empty | Some m \<Rightarrow> m)(key \<mapsto> v))\<rparr>"

definition docAbs :: Document where
  "docAbs = \<lparr>ident = 6, SourcePath = ''/abs/x.md'', Permalink = ''/x.html'', IsPage = True\<rparr>"

definition siteAbs :: Site where
  "siteAbs = site0\<lparr>docs := [docA, docAbs, docDraft]\<rparr>"

section \<open>Facts about paths\<close>

lemma splitSep_nonempty: "splitSep x \<noteq> []"
  by (induction x) auto

lemma splitSep_weight: "elemsWeight (splitSep x) = Suc (length x)"
proof (induction x)
  case Nil
  show ?case by (simp add: elemsWeight_def)
next
  case (Cons c cs)
  obtain y ys where s: "splitSep cs = y # ys"
    using splitSep_nonempty [of cs] by (cases "splitSep cs") auto
  with Cons show ?case by (simp add: elemsWeight_def)
qed

lemma splitSep_snoc: "splitSep (q @ [Separator]) = splitSep q @ [[]]"
proof (induction q)
  case Nil
  show ?case by simp
next
  case (Cons c cs)
  obtain y ys where s: "splitSep cs = y # ys"
    using splitSep_nonempty [of cs] by (cases "splitSep cs") auto
  with Cons show ?case by simp
qed

lemma splitSep_no_sep: "c \<in> set (splitSep x) \<Longrightarrow> Separator \<notin> set c"
proof (induction x arbitrary: c)
  case Nil
  then show ?case by simp
next
  case (Cons a cs)
  obtain y ys where s: "splitSep cs = y # ys"
    using splitSep_nonempty [of cs] by (cases "splitSep cs") auto
  have y: "Separator \<notin> set y" and ys: "\<And>d. d \<in> set ys \<Longrightarrow> Separator \<notin> set d"
    using Cons.IH s by auto
  from Cons.prems s y ys show ?case by (auto split: if_splits)
qed

lemma elemWeight_le: "sum_list (map elemWeight es) \<le> elemsWeight es"
  by (induction es) (auto simp: elemWeight_def elemsWeight_def)

lemma cleanStep_weight: "elemsWeight (cleanStep r out e) \<le> elemsWeight out + elemWeight e"
  by (auto simp: cleanStep_def elemsWeight_def elemWeight_def split: list.splits)

lemma foldl_cleanStep_weight:
  "elemsWeight (foldl (cleanStep r) out es) \<le> elemsWeight out + sum_list (map elemWeight es)"
proof (induction es arbitrary: out)
  case Nil
  show ?case by simp
next
  case (Cons e es)
  have "elemsWeight (foldl (cleanStep r) (cleanStep r out e) es)
          \<le> elemsWeight (cleanStep r out e) + sum_list (map elemWeight es)"
    by (rule Cons.IH)
  also have "\<dots> \<le> elemsWeight out + elemWeight e + sum_list (map elemWeight es)"
    using cleanStep_weight [of r out e] by simp
  finally show ?case by simp
qed

lemma cleanStep_set: "set (cleanStep r out e) \<subseteq> set out \<union> ({e} - {[]})"
  by (auto simp: cleanStep_def split: list.splits if_splits)

lemma foldl_cleanStep_set:
  "set (foldl (cleanStep r) out es) \<subseteq> set out \<union> (set es - {[]})"
proof (induction es arbitrary: out)
  case Nil
  show ?case by simp
next
  case (Cons e es)
  have "set (foldl (cleanStep r) (cleanStep r out e) es)
          \<subseteq> set (cleanStep r out e) \<union> (set es - {[]})"
    by (rule Cons.IH)
  with cleanStep_set [of r out e] show ?case by auto
qed

lemma joinSep_length: "xs \<noteq> [] \<Longrightarrow> Suc (length (joinSep xs)) = elemsWeight xs"
  by (induction xs rule: joinSep.induct) (auto simp: elemsWeight_def)

lemma elemsWeight_rev: "elemsWeight (rev xs) = elemsWeight xs"
  by (simp add: elemsWeight_def rev_map [symmetric])

lemma joinSep_hd: "y \<noteq> [] \<Longrightarrow> hd (joinSep (y # ys)) = hd y"
  by (cases ys) auto

lemma joinSep_Nil_iff: "y \<noteq> [] \<Longrightarrow> joinSep (y # ys) \<noteq> []"
  by (cases ys) auto


lemma Clean_relative_cases:
  assumes "x \<noteq> []" "\<not> IsAbs x"
  shows "Clean x = ''.'' \<or>
         (\<exists>out. out \<noteq> [] \<and> Clean x = joinSep out
            \<and> set out \<subseteq> set (splitSep x) - {[]}
            \<and> elemsWeight out \<le> sum_list (map elemWeight (splitSep x)))"
proof -
  define st where "st = foldl (cleanStep False) [] (splitSep x)"
  from assms have nr: "hd x \<noteq> Separator"
    by (cases x) (auto simp: IsAbs_def)
  have c: "Clean x = (if rev st = [] then ''.'' else joinSep (rev st))"
    using assms(1) nr by (simp add: Clean_def st_def Let_def)
  have s: "set (rev st) \<subseteq> set (splitSep x) - {[]}"
    using foldl_cleanStep_set [of False "[]" "splitSep x"] by (simp add: st_def)
  have w: "elemsWeight (rev st) \<le> sum_list (map elemWeight (splitSep x))"
    using foldl_cleanStep_weight [of False "[]" "splitSep x"]
    by (simp add: st_def elemsWeight_rev) (simp add: elemsWeight_def)
  show ?thesis
  proof (cases "rev st = []")
    case True
    with c show ?thesis by simp
  next
    case False
    with c s w have "rev st \<noteq> [] \<and> Clean x = joinSep (rev st)
            \<and> set (rev st) \<subseteq> set (splitSep x) - {[]}
            \<and> elemsWeight (rev st) \<le> sum_list (map elemWeight (splitSep x))" by simp
    then show ?thesis by blast
  qed
qed

lemma Clean_relative: "\<not> IsAbs x \<Longrightarrow> \<not> IsAbs (Clean x)"
proof (cases "x = []")
  case True
  then show ?thesis by (simp add: Clean_def IsAbs_def Separator_def)
next
  case False
  assume r: "\<not> IsAbs x"
  from Clean_relative_cases [OF False r] show ?thesis
  proof
    assume "Clean x = ''.''"
    then show ?thesis by (simp add: IsAbs_def Separator_def)
  next
    assume "\<exists>out. out \<noteq> [] \<and> Clean x = joinSep out
            \<and> set out \<subseteq> set (splitSep x) - {[]}
            \<and> elemsWeight out \<le> sum_list (map elemWeight (splitSep x))"
    then obtain out where o: "out \<noteq> []" "Clean x = joinSep out"
      "set out \<subseteq> set (splitSep x) - {[]}" by blast
    then obtain y ys where out: "out = y # ys" by (cases out) auto
    with o have y: "y \<noteq> []" "y \<in> set (splitSep x)" by auto
    then have "Separator \<notin> set y" by (simp add: splitSep_no_sep)
    with y have "hd y \<noteq> Separator" by (cases y) auto
    with y out o joinSep_hd [of y ys] joinSep_Nil_iff [of y ys] show ?thesis
      by (cases "joinSep (y # ys)") (auto simp: IsAbs_def)
  qed
qed

lemma Clean_trailing_length:
  assumes "q \<noteq> []" "\<not> IsAbs q"
  shows "Clean (q @ [Separator]) = ''.'' \<or> length (Clean (q @ [Separator])) \<le> length q"
proof -
  let ?x = "q @ [Separator]"
  have x: "?x \<noteq> []" "\<not> IsAbs ?x"
    using assms by (cases q; simp add: IsAbs_def)+
  from Clean_relative_cases [OF x] show ?thesis
  proof
    assume "Clean ?x = ''.''"
    then show ?thesis by simp
  next
    assume "\<exists>out. out \<noteq> [] \<and> Clean ?x = joinSep out
            \<and> set out \<subseteq> set (splitSep ?x) - {[]}
            \<and> elemsWeight out \<le> sum_list (map elemWeight (splitSep ?x))"
    then obtain out where o: "out \<noteq> []" "Clean ?x = joinSep out"
      "elemsWeight out \<le> sum_list (map elemWeight (splitSep ?x))" by blast
    have "sum_list (map elemWeight (splitSep ?x)) = sum_list (map elemWeight (splitSep q))"
      by (simp add: splitSep_snoc elemWeight_def)
    also have "\<dots> \<le> elemsWeight (splitSep q)" by (rule elemWeight_le)
    also have "\<dots> = Suc (length q)" by (rule splitSep_weight)
    finally have "elemsWeight out \<le> Suc (length q)" using o(3) by simp
    with joinSep_length [OF o(1)] o(2) show ?thesis by simp
  qed
qed

lemma dirPrefix_cases:
  "rev (dropWhile (\<lambda>c. c \<noteq> Separator) (rev p)) = [] \<or>
   (\<exists>q t. rev (dropWhile (\<lambda>c. c \<noteq> Separator) (rev p)) = q @ [Separator] \<and> p = q @ [Separator] @ t)"
proof (cases "dropWhile (\<lambda>c. c \<noteq> Separator) (rev p)")
  case Nil
  then show ?thesis by simp
next
  case (Cons a as)
  have a: "a = Separator"
    using Cons hd_dropWhile [of "\<lambda>c. c \<noteq> Separator" "rev p"] by simp
  have "rev p = takeWhile (\<lambda>c. c \<noteq> Separator) (rev p) @ dropWhile (\<lambda>c. c \<noteq> Separator) (rev p)"
    by simp
  then have "p = rev (dropWhile (\<lambda>c. c \<noteq> Separator) (rev p)) @ rev (takeWhile (\<lambda>c. c \<noteq> Separator) (rev p))"
    by (metis rev_append rev_rev_ident)
  with Cons a show ?thesis by auto
qed

lemma Dir_relative: "\<not> IsAbs p \<Longrightarrow> \<not> IsAbs (Dir p)"
proof -
  assume r: "\<not> IsAbs p"
  from dirPrefix_cases [of p] show ?thesis
  proof
    assume "rev (dropWhile (\<lambda>c. c \<noteq> Separator) (rev p)) = []"
    then show ?thesis by (simp add: Dir_def Clean_def IsAbs_def Separator_def)
  next
    assume "\<exists>q t. rev (dropWhile (\<lambda>c. c \<noteq> Separator) (rev p)) = q @ [Separator] \<and> p = q @ [Separator] @ t"
    then obtain q t where q: "rev (dropWhile (\<lambda>c. c \<noteq> Separator) (rev p)) = q @ [Separator]"
      "p = q @ [Separator] @ t" by blast
    from r q(2) have "\<not> IsAbs (q @ [Separator])" by (cases q) (auto simp: IsAbs_def)
    then show ?thesis using q(1) by (simp add: Dir_def Clean_relative)
  qed
qed

lemma Dir_levelMeasure: "\<not> IsAbs p \<Longrightarrow> p \<noteq> ''.'' \<Longrightarrow> levelMeasure (Dir p) < levelMeasure p"
proof -
  assume r: "\<not> IsAbs p" and n: "p \<noteq> ''.''"
  from dirPrefix_cases [of p] show ?thesis
  proof
    assume "rev (dropWhile (\<lambda>c. c \<noteq> Separator) (rev p)) = []"
    then have "Dir p = ''.''" by (simp add: Dir_def Clean_def)
    with n show ?thesis by (simp add: levelMeasure_def)
  next
    assume "\<exists>q t. rev (dropWhile (\<lambda>c. c \<noteq> Separator) (rev p)) = q @ [Separator] \<and> p = q @ [Separator] @ t"
    then obtain q t where q: "rev (dropWhile (\<lambda>c. c \<noteq> Separator) (rev p)) = q @ [Separator]"
      "p = q @ [Separator] @ t" by blast
    from r q(2) have qq: "q \<noteq> []" "\<not> IsAbs q" by (cases q; auto simp: IsAbs_def)+
    have d: "Dir p = Clean (q @ [Separator])" using q(1) by (simp add: Dir_def)
    from Clean_trailing_length [OF qq] d have "Dir p = ''.'' \<or> length (Dir p) \<le> length q"
      by simp
    moreover have "length q < length p" using q(2) by simp
    ultimately show ?thesis using n by (auto simp: levelMeasure_def)
  qed
qed

lemma Base_nonempty: "Base p \<noteq> []"
  by (simp add: Base_def Let_def)

text \<open>Examples from the tests of \<open>path/filepath\<close>.\<close>

lemma Clean_examples:
  "map Clean ['''', ''abc/'', ''abc//def//ghi'', ''abc/./def'', ''abc/def/../ghi/../jkl'',
              ''abc/def/../../..'', ''/abc/def/../../..'', ''/../abc'',
              ''abc/../../././../def'']
   = [''.'', ''abc'', ''abc/def/ghi'', ''abc/def'', ''abc/jkl'', ''..'', ''/'', ''/abc'',
      ''../../def'']"
  by code_simp

lemma Dir_examples:
  "map Dir ['''', ''.'', ''/.'', ''/'', ''/foo'', ''x/'', ''abc'', ''abc/def'', ''a/b/.x'']
   = [''.'', ''.'', ''/'', ''/'', ''/'', ''x'', ''.'', ''abc'', ''a/b'']"
  by code_simp

lemma Base_examples:
  "map Base ['''', ''.'', ''/.'', ''/'', ''////'', ''x/'', ''abc'', ''abc/def'', ''a/b/.x'']
   = [''.'', ''.'', ''.'', ''/'', ''/'', ''x'', ''abc'', ''def'', ''.x'']"
  by code_simp

lemma Join_examples:
  "map Join [[], [''''], [''a''], [''a'', ''b''], [''a'', ''''], ['''', ''b''], [''/'', ''a''],
             [''a/'', ''b''], ['''', '''']]
   = ['''', '''', ''a'', ''a/b'', ''a'', ''b'', ''/a'', ''a/b'', '''']"
  by code_simp

termination levels
  by (relation "measure levelMeasure") (auto simp: Dir_levelMeasure)

declare levels.simps [simp del]

section \<open>Facts about Exclude\<close>

lemma Exclude_root: "Exclude M s ''.'' = Some (Inr False)"
  by (subst Exclude.simps) simp

lemma Exclude_step:
  assumes "p \<noteq> ''.''"
  shows "Exclude M s p =
           (case levelRule M (config s) p of
              Some b \<Rightarrow> Some (Inr b)
            | None \<Rightarrow> Exclude M s (Dir p))"
proof -
  obtain c cs where b: "Base p = c # cs"
    using Base_nonempty [of p] by (cases "Base p") auto
  show ?thesis
    using assms b
    by (subst Exclude.simps)
       (simp add: levelRule_def underscoreCase_def startsWith_def Let_def)
qed

lemma Exclude_walk:
  "\<not> IsAbs p \<Longrightarrow> Exclude M s p = Some (Inr (excludeWalk M (config s) p))"
proof (induction p rule: levels.induct)
  case (1 p)
  show ?case
  proof (cases "p = ''.''")
    case True
    have "levels ''.'' = []" by (simp add: levels.simps [of "''.''"])
    with True show ?thesis
      by (simp add: Exclude_root excludeWalk_def)
  next
    case False
    with "1.prems" have l: "levels p = p # levels (Dir p)"
      by (simp add: levels.simps [of p])
    have ih: "Exclude M s (Dir p) = Some (Inr (excludeWalk M (config s) (Dir p)))"
      using "1.IH" False "1.prems" Dir_relative [of p] by simp
    show ?thesis
      by (cases "levelRule M (config s) p")
         (simp_all add: Exclude_step [OF False] ih excludeWalk_def l)
  qed
qed

lemma Exclude_include:
  "M (Include (config s)) p \<Longrightarrow> Exclude M s p = Some (Inr False)"
  by (cases "p = ''.''") (simp_all add: Exclude_root Exclude_step levelRule_def)

lemma Exclude_junk:
  "excludeFileRE (Base p) \<Longrightarrow> \<not> M (Include (config s)) p \<Longrightarrow> Exclude M s p = Some (Inr True)"
proof -
  assume j: "excludeFileRE (Base p)" and i: "\<not> M (Include (config s)) p"
  have "p \<noteq> ''.''"
  proof
    assume "p = ''.''"
    with j show False by (simp add: Base_def excludeFileRE_def Separator_def)
  qed
  then show ?thesis using j i by (simp add: Exclude_step levelRule_def)
qed

lemma Exclude_top_level:
  assumes "Dir p = ''.''" "\<not> M (Include (config s)) p" "\<not> M (Exclude_cfg (config s)) p"
    "\<not> excludeFileRE (Base p)"
  shows "Exclude M s p = Some (Inr False)"
proof (cases "p = ''.''")
  case True
  then show ?thesis by (simp add: Exclude_root)
next
  case False
  with assms show ?thesis by (simp add: Exclude_step levelRule_def Exclude_root)
qed

lemma Exclude_nested_underscore:
  assumes "Dir p \<noteq> ''.''" "startsWith (Base p) (CHR ''_'')" "\<not> M (Include (config s)) p"
  shows "Exclude M s p = Some (Inr True)"
proof -
  have "Dir ''.'' = ''.''" by (simp add: Dir_def Clean_def Separator_def)
  with assms(1) have "p \<noteq> ''.''" by auto
  with assms show ?thesis by (simp add: Exclude_step levelRule_def)
qed

text \<open>
  The walk is bounded for site-relative paths only. The parent of \<open>/\<close> is \<open>/\<close>, no
  built-in rule fires on it, and unless a pattern matches it the loop does not return.
\<close>

lemma slash_facts: "Dir ''/'' = ''/''" "Base ''/'' = ''/''" "\<not> excludeFileRE ''/''"
  "underscoreCase ''/'' ''/'' = Inr False"
  by code_simp+

lemma Exclude_slash_no_result:
  assumes "Exclude M s p = Some r"
  shows "\<not> (p = ''/'' \<and> \<not> M (Include (config s)) ''/'' \<and> \<not> M (Exclude_cfg (config s)) ''/'')"
proof (rule Exclude.raw_induct
    [where P = "\<lambda>M s p r. \<not> (p = ''/'' \<and> \<not> M (Include (config s)) ''/''
                              \<and> \<not> M (Exclude_cfg (config s)) ''/'')", OF _ assms])
  fix f :: "(string list \<Rightarrow> string \<Rightarrow> bool) \<Rightarrow> Site \<Rightarrow> string \<Rightarrow> (error + bool) option"
  fix M s p r
  assume ih: "\<And>M s p r. f M s p = Some r
                \<Longrightarrow> \<not> (p = ''/'' \<and> \<not> M (Include (config s)) ''/''
                        \<and> \<not> M (Exclude_cfg (config s)) ''/'')"
  assume body: "(if p \<noteq> ''.''
      then let dir = Dir p; base = Base p
           in if M (Include (config s)) p
              then Some (Inr False)
              else if M (Exclude_cfg (config s)) p
                   then Some (Inr True)
                   else case underscoreCase dir base of Inl e \<Rightarrow> Some (Inl e)
                        | Inr underscore \<Rightarrow>
                            if underscore then Some (Inr True)
                            else if excludeFileRE base then Some (Inr True)
                                 else f M s dir
      else Some (Inr False)) = Some r"
  show "\<not> (p = ''/'' \<and> \<not> M (Include (config s)) ''/'' \<and> \<not> M (Exclude_cfg (config s)) ''/'')"
  proof
    assume a: "p = ''/'' \<and> \<not> M (Include (config s)) ''/'' \<and> \<not> M (Exclude_cfg (config s)) ''/''"
    with body have "f M s ''/'' = Some r"
      by (simp add: slash_facts)
    from ih [OF this] a show False by simp
  qed
qed

lemma Exclude_slash_diverges:
  "\<not> M (Include (config s)) ''/'' \<Longrightarrow> \<not> M (Exclude_cfg (config s)) ''/''
   \<Longrightarrow> Exclude M s ''/'' = None"
  using Exclude_slash_no_result [of M s "''/''"] by (cases "Exclude M s ''/''") auto

section \<open>Exclude: the claims\<close>

text \<open>
  C2, as amended. For a site-relative path, \<open>Exclude\<close> returns, and returns the result
  of the walk from the path up to the root with the rules tried in the fixed precedence
  include, exclude, nested underscore, junk file. A top-level entry (its parent is the
  root) that matches no include pattern, no exclude pattern and not the junk-file
  pattern is not excluded, whatever its first character (\<open>_posts\<close>); a nested entry
  whose basename starts with an underscore is excluded unless the entry itself matches an
  include pattern (\<open>sub/_drafts\<close>); and a path whose basename matches the junk-file
  pattern is excluded, at any depth, unless the path itself matches an include pattern.
\<close>

theorem Exclude_walk_precedence:
  "(\<not> IsAbs p \<longrightarrow> Exclude MatchList s p = Some (Inr (excludeWalk MatchList (config s) p)))
   \<and> (Dir p = ''.'' \<and> \<not> MatchList (Include (config s)) p
        \<and> \<not> MatchList (Exclude_cfg (config s)) p \<and> \<not> excludeFileRE (Base p)
      \<longrightarrow> Exclude MatchList s p = Some (Inr False))
   \<and> (Dir p \<noteq> ''.'' \<and> startsWith (Base p) (CHR ''_'') \<and> \<not> MatchList (Include (config s)) p
      \<longrightarrow> Exclude MatchList s p = Some (Inr True))
   \<and> (excludeFileRE (Base p) \<and> \<not> MatchList (Include (config s)) p
      \<longrightarrow> Exclude MatchList s p = Some (Inr True))"
  using Exclude_walk [of p MatchList s] Exclude_top_level [of p MatchList s]
    Exclude_nested_underscore [of p MatchList s] Exclude_junk [of p MatchList s]
  by blast

theorem Exclude_walk_precedence_witness:
  "\<not> IsAbs ''_posts''
   \<and> Exclude MatchLiteral siteInclude ''_posts''
       = Some (Inr (excludeWalk MatchLiteral (config siteInclude) ''_posts''))
   \<and> Exclude MatchLiteral siteInclude ''_posts'' = Some (Inr False)
   \<and> Exclude MatchLiteral siteInclude ''sub/_drafts'' = Some (Inr True)
   \<and> Exclude MatchLiteral siteInclude ''sub/.git'' = Some (Inr True)"
proof -
  have a: "\<not> IsAbs ''_posts''" "Dir ''_posts'' = ''.''"
      "\<not> MatchLiteral (Include (config siteInclude)) ''_posts''"
      "\<not> MatchLiteral (Exclude_cfg (config siteInclude)) ''_posts''"
      "\<not> excludeFileRE (Base ''_posts'')"
    by code_simp+
  have b: "Dir ''sub/_drafts'' \<noteq> ''.''"
      "startsWith (Base ''sub/_drafts'') (CHR ''_'')"
      "\<not> MatchLiteral (Include (config siteInclude)) ''sub/_drafts''"
    by code_simp+
  have c: "excludeFileRE (Base ''sub/.git'')"
      "\<not> MatchLiteral (Include (config siteInclude)) ''sub/.git''"
    by code_simp+
  have w1: "Exclude MatchLiteral siteInclude ''_posts''
              = Some (Inr (excludeWalk MatchLiteral (config siteInclude) ''_posts''))"
    using a(1) Exclude_walk_precedence [of "''_posts''" MatchLiteral siteInclude] by blast
  have t1: "Exclude MatchLiteral siteInclude ''_posts'' = Some (Inr False)"
    using a Exclude_walk_precedence [of "''_posts''" MatchLiteral siteInclude] by blast
  have t2: "Exclude MatchLiteral siteInclude ''sub/_drafts'' = Some (Inr True)"
    using b Exclude_walk_precedence [of "''sub/_drafts''" MatchLiteral siteInclude] by blast
  have t3: "Exclude MatchLiteral siteInclude ''sub/.git'' = Some (Inr True)"
    using c Exclude_walk_precedence [of "''sub/.git''" MatchLiteral siteInclude] by blast
  from a(1) w1 t1 t2 t3 show ?thesis by blast
qed

text \<open>
  C2 as stated fails: \<open>.htaccess\<close> has a basename that matches the junk-file pattern,
  and with \<open>.htaccess\<close> in the include list it is not excluded.
\<close>

theorem Exclude_junk_counterexample:
  "excludeFileRE (Base ''.htaccess'')
   \<and> Exclude MatchLiteral siteInclude ''.htaccess'' = Some (Inr False)"
  by code_simp

text \<open>
  C3, as amended. A path that itself matches an include pattern is not excluded,
  whatever exclude pattern it or one of its parents matches: the include test is the
  first rule tried at the first level of the walk.
\<close>

theorem Exclude_include_wins:
  "MatchList (Include (config s)) p \<Longrightarrow> Exclude MatchList s p = Some (Inr False)"
  by (rule Exclude_include)

theorem Exclude_include_wins_witness:
  "MatchLiteral (Include (config siteBoth)) ''a/b''
   \<and> MatchLiteral (Exclude_cfg (config siteBoth)) ''a/b''
   \<and> Exclude MatchLiteral siteBoth ''a/b'' = Some (Inr False)"
proof -
  have i: "MatchLiteral (Include (config siteBoth)) ''a/b''"
    by (simp add: MatchLiteral_def siteBoth_def config0_def)
  have e: "MatchLiteral (Exclude_cfg (config siteBoth)) ''a/b''"
    by (simp add: MatchLiteral_def siteBoth_def config0_def)
  from i e Exclude_include_wins [where MatchList = MatchLiteral and s = siteBoth and p = "''a/b''"]
  show ?thesis by simp
qed

text \<open>
  C3 as stated fails when the two patterns match at different levels: \<open>a/b\<close> matches
  the exclude pattern at its own level and the include pattern only at the level of its
  parent \<open>a\<close>, and it is excluded.
\<close>

theorem Exclude_include_level_counterexample:
  "MatchLiteral (Exclude_cfg (config siteLevels)) ''a/b''
   \<and> levels ''a/b'' = [''a/b'', ''a'']
   \<and> MatchLiteral (Include (config siteLevels)) ''a''
   \<and> Exclude MatchLiteral siteLevels ''a/b'' = Some (Inr True)"
  by code_simp

text \<open>
  C10. Whatever the include and exclude lists, \<open>Exclude\<close> of the root \<open>.\<close> returns
  false: the loop body is not entered.
\<close>

theorem Exclude_root_not_excluded:
  "Exclude MatchList s ''.'' = Some (Inr False)"
  by (rule Exclude_root)

theorem Exclude_root_not_excluded_witness:
  "Exclude MatchLiteral (site0\<lparr>config := config0\<lparr>Include := [''.''], Exclude_cfg := [''.'']\<rparr>\<rparr>) ''.'' = Some (Inr False)"
  by (rule Exclude_root_not_excluded)

section \<open>URLPage\<close>

lemma URLPage_chain:
  "URLPage s u = firstMatch (Routes s)
     [u, Join [u, ''index.html''], Join [u, ''index.htm''], Clean (u @ ''.html'')]"
  by (simp add: URLPage_def commaOk_def Let_def split: option.splits)

lemma URLPage_site_chain:
  "URLPage_site s u = firstMatch (Routes s) [u, Join [u, ''index.html''], Join [u, ''index.htm'']]"
  by (simp add: URLPage_site_def commaOk_def Let_def split: option.splits)

text \<open>
  C1, as amended. \<open>URLPage\<close> tries four keys in order, the first one present in
  \<open>Routes\<close> winning and none present meaning not found: the path itself; the path
  joined with \<open>index.html\<close>; the path joined with \<open>index.htm\<close>; and the cleaned form
  of the path with \<open>.html\<close> appended (\<open>filepath.Join\<close> of that single string). The
  copy of the function in \<open>src/site/site.go\<close> tries the first three keys only. When
  the first three keys are absent and the cleaned fourth key is present, its document
  is returned as found; and when the path with \<open>.html\<close> appended is already clean,
  the fourth key is that very string.
\<close>

theorem URLPage_fallback_chain:
  "URLPage s u = firstMatch (Routes s)
       [u, Join [u, ''index.html''], Join [u, ''index.htm''], Clean (u @ ''.html'')]
   \<and> URLPage_site s u = firstMatch (Routes s)
       [u, Join [u, ''index.html''], Join [u, ''index.htm'']]
   \<and> (Routes s u = None \<and> Routes s (Join [u, ''index.html'']) = None
        \<and> Routes s (Join [u, ''index.htm'']) = None
        \<and> Routes s (Clean (u @ ''.html'')) = Some d
      \<longrightarrow> URLPage s u = (Some d, True))
   \<and> (Clean (u @ ''.html'') = u @ ''.html''
      \<longrightarrow> URLPage s u = firstMatch (Routes s)
            [u, Join [u, ''index.html''], Join [u, ''index.htm''], u @ ''.html''])"
proof -
  have a: "URLPage s u = firstMatch (Routes s)
       [u, Join [u, ''index.html''], Join [u, ''index.htm''], Clean (u @ ''.html'')]"
    by (rule URLPage_chain)
  have b: "URLPage_site s u = firstMatch (Routes s)
       [u, Join [u, ''index.html''], Join [u, ''index.htm'']]"
    by (rule URLPage_site_chain)
  have c: "Routes s u = None \<and> Routes s (Join [u, ''index.html'']) = None
        \<and> Routes s (Join [u, ''index.htm'']) = None
        \<and> Routes s (Clean (u @ ''.html'')) = Some d
      \<longrightarrow> URLPage s u = (Some d, True)"
    by (simp add: a)
  have d: "Clean (u @ ''.html'') = u @ ''.html''
      \<longrightarrow> URLPage s u = firstMatch (Routes s)
            [u, Join [u, ''index.html''], Join [u, ''index.htm''], u @ ''.html'']"
    by (simp add: a)
  from a b c d show ?thesis by blast
qed

theorem URLPage_fallback_chain_witness:
  "Routes siteBlog ''/blog'' = None
   \<and> Routes siteBlog (Join [''/blog'', ''index.html'']) = None
   \<and> Routes siteBlog (Join [''/blog'', ''index.htm'']) = None
   \<and> Clean (''/blog'' @ ''.html'') = ''/blog'' @ ''.html''
   \<and> Routes siteBlog (Clean (''/blog'' @ ''.html'')) = Some docBlog
   \<and> URLPage siteBlog ''/blog'' = (Some docBlog, True)"
proof -
  have h: "Routes siteBlog ''/blog'' = None"
     "Routes siteBlog (Join [''/blog'', ''index.html'']) = None"
     "Routes siteBlog (Join [''/blog'', ''index.htm'']) = None"
     "Clean (''/blog'' @ ''.html'') = ''/blog'' @ ''.html''"
     "Routes siteBlog (Clean (''/blog'' @ ''.html'')) = Some docBlog"
    by code_simp+
  from h URLPage_fallback_chain [of siteBlog "''/blog''" docBlog]
  show ?thesis by blast
qed

text \<open>
  C1 as stated fails. With \<open>Routes\<close> holding only the key \<open>//blog.html\<close>, the query
  \<open>//blog\<close> finds the key of the claim's step (4) in the table and none of the first
  three, yet both copies of \<open>URLPage\<close> report not found: the key that is looked up is
  \<open>/blog.html\<close>. With \<open>Routes\<close> holding only \<open>/blog.html\<close>, the copy in
  \<open>src/site/site.go\<close> does not find the query \<open>/blog\<close>, and the later copy finds
  the query \<open>//blog\<close> although none of the claim's four keys is in the table.
\<close>

theorem URLPage_suffix_counterexample:
  "Routes siteUnclean (''//blog'' @ ''.html'') = Some docBlog
   \<and> Routes siteUnclean ''//blog'' = None
   \<and> Routes siteUnclean (Join [''//blog'', ''index.html'']) = None
   \<and> Routes siteUnclean (Join [''//blog'', ''index.htm'']) = None
   \<and> URLPage siteUnclean ''//blog'' = (None, False)
   \<and> URLPage_site siteUnclean ''//blog'' = (None, False)
   \<and> Routes siteBlog (''/blog'' @ ''.html'') = Some docBlog
   \<and> URLPage_site siteBlog ''/blog'' = (None, False)
   \<and> Routes siteBlog (''//blog'' @ ''.html'') = None
   \<and> URLPage siteBlog ''//blog'' = (Some docBlog, True)"
  by code_simp

section \<open>FilePathPage, FilenameURLPath and FilenameURLs\<close>

lemma set_routed: "set (routed s order) = {d. \<exists>k \<in> set order. Routes s k = Some d}"
  by (induction order) (auto simp: routed_def split: option.splits)

lemma scan_shape:
  "FilePathPage_scan Rel src ps rel = (None, False)
   \<or> (\<exists>d. FilePathPage_scan Rel src ps rel = (Some d, True))"
  by (induction ps) (auto split: sum.splits)

lemma scan_found:
  "FilePathPage_scan Rel src ps rel = (Some d, found)
   \<Longrightarrow> d \<in> set ps \<and> SourcePath d \<noteq> [] \<and> Rel src (SourcePath d) = Inr rel"
  by (induction ps) (auto split: sum.splits if_splits)

lemma scan_exists:
  "d \<in> set ps \<Longrightarrow> SourcePath d \<noteq> [] \<Longrightarrow> Rel src (SourcePath d) = Inr rel
   \<Longrightarrow> \<exists>d'. FilePathPage_scan Rel src ps rel = (Some d', True)"
  by (induction ps) (auto split: sum.splits)

lemma FilePathPage_found:
  "FilePathPage Rel order s rel = (Some d, found)
   \<Longrightarrow> (\<exists>k \<in> set order. Routes s k = Some d) \<and> SourcePath d \<noteq> []
       \<and> Rel (SourceDir s) (SourcePath d) = Inr rel"
  using scan_found [of Rel "SourceDir s" "routed s order" rel d found]
  by (simp add: FilePathPage_def set_routed)

lemma FilePathPage_exists:
  assumes "Routes s k = Some d" "k \<in> set order" "SourcePath d \<noteq> []"
    "Rel (SourceDir s) (SourcePath d) = Inr r"
  shows "\<exists>d'. FilePathPage Rel order s r = (Some d', True)"
proof -
  from assms(1,2) have "d \<in> set (routed s order)" by (auto simp: set_routed)
  with assms(3,4)
    scan_exists [where d = d and ps = "routed s order" and Rel = Rel and src = "SourceDir s" and rel = r]
  show ?thesis by (simp add: FilePathPage_def)
qed

text \<open>
  C4, as amended. Let \<open>d\<close> be a document stored in \<open>Routes\<close> with a non-empty source
  path that \<open>filepath.Rel\<close> makes relative to the source directory as \<open>r\<close>. Then,
  in whatever order the map is visited, \<open>FilePathPage(r)\<close> finds a document stored in
  \<open>Routes\<close> that has a non-empty source path with the same relative form \<open>r\<close>; and
  it is \<open>d\<close> itself when no other routed document has that relative source path.
\<close>

theorem FilePathPage_roundtrip:
  assumes "set order = dom (Routes s)" "Routes s k = Some d" "SourcePath d \<noteq> []"
    "Rel (SourceDir s) (SourcePath d) = Inr r"
  shows "(\<exists>d' k'. FilePathPage Rel order s r = (Some d', True) \<and> Routes s k' = Some d'
            \<and> SourcePath d' \<noteq> [] \<and> Rel (SourceDir s) (SourcePath d') = Inr r)
         \<and> ((\<forall>k' d'. Routes s k' = Some d' \<and> SourcePath d' \<noteq> []
                  \<and> Rel (SourceDir s) (SourcePath d') = Inr r \<longrightarrow> d' = d)
             \<longrightarrow> FilePathPage Rel order s r = (Some d, True))"
proof -
  from assms(1,2) have k: "k \<in> set order" by auto
  from assms(2,3,4) k
    FilePathPage_exists [where s = s and k = k and d = d and order = order and Rel = Rel and r = r]
  obtain d' where f: "FilePathPage Rel order s r = (Some d', True)" by blast
  from f FilePathPage_found [where Rel = Rel and order = order and s = s and rel = r and d = d'
      and found = True]
  obtain k' where p: "Routes s k' = Some d'" "SourcePath d' \<noteq> []"
    "Rel (SourceDir s) (SourcePath d') = Inr r" by blast
  from f p show ?thesis by blast
qed

theorem FilePathPage_roundtrip_witness:
  "set [''/a/'', ''/style.css''] = dom (Routes siteMixed)
   \<and> Routes siteMixed ''/style.css'' = Some docCss
   \<and> SourcePath docCss \<noteq> []
   \<and> RelUnder (SourceDir siteMixed) (SourcePath docCss) = Inr ''style.css''
   \<and> FilePathPage RelUnder [''/a/'', ''/style.css''] siteMixed ''style.css'' = (Some docCss, True)"
proof -
  have o: "set [''/a/'', ''/style.css''] = dom (Routes siteMixed)"
    by (auto simp: siteMixed_def site0_def split: if_splits)
  have r: "Routes siteMixed ''/style.css'' = Some docCss"
    by (simp add: siteMixed_def site0_def)
  have n: "SourcePath docCss \<noteq> []" by (simp add: docCss_def)
  have l: "RelUnder (SourceDir siteMixed) (SourcePath docCss) = Inr ''style.css''"
    by code_simp
  have u: "\<forall>k' d'. Routes siteMixed k' = Some d' \<and> SourcePath d' \<noteq> []
             \<and> RelUnder (SourceDir siteMixed) (SourcePath d') = Inr ''style.css'' \<longrightarrow> d' = docCss"
  proof (intro allI impI)
    fix k' d'
    assume a: "Routes siteMixed k' = Some d' \<and> SourcePath d' \<noteq> []
             \<and> RelUnder (SourceDir siteMixed) (SourcePath d') = Inr ''style.css''"
    have "RelUnder (SourceDir siteMixed) (SourcePath docA) \<noteq> Inr ''style.css''"
      by code_simp
    with a show "d' = docCss"
      by (auto simp: siteMixed_def site0_def split: if_splits)
  qed
  from FilePathPage_roundtrip [where Rel = RelUnder and order = "[''/a/'', ''/style.css'']"
      and s = siteMixed and k = "''/style.css''" and d = docCss and r = "''style.css''"] u o r n l
  show ?thesis by blast
qed

text \<open>
  C4 as stated fails when two routed documents share a source path: visiting the key
  \<open>/a/\<close> first, the query for the source of the document at \<open>/copy/\<close> returns the
  document at \<open>/a/\<close>; visiting the keys in the other order, the same query returns
  the document at \<open>/copy/\<close>, so the round trip fails for the one or the other.
\<close>

theorem FilePathPage_duplicate_counterexample:
  "Routes siteDup ''/copy/'' = Some docCopy
   \<and> SourcePath docCopy \<noteq> []
   \<and> RelUnder (SourceDir siteDup) (SourcePath docCopy) = Inr ''a.md''
   \<and> FilePathPage RelUnder [''/a/'', ''/copy/''] siteDup ''a.md'' = (Some docA, True)
   \<and> FilePathPage RelUnder [''/copy/'', ''/a/''] siteDup ''a.md'' = (Some docCopy, True)
   \<and> docA \<noteq> docCopy"
  by code_simp


lemma FilePathPage_shape:
  "FilePathPage Rel order s rel = (None, False)
   \<or> (\<exists>d. FilePathPage Rel order s rel = (Some d, True))"
  using scan_shape [of Rel "SourceDir s" "routed s order" rel] by (simp add: FilePathPage_def)

lemma FilenameURLPath_iff:
  "FilenameURLPath Rel order s rel = Inr (url, True)
   \<longleftrightarrow> (\<exists>d. FilePathPage Rel order s rel = (Some d, True) \<and> url = Permalink d)"
  using FilePathPage_shape [of Rel order s rel]
  by (auto simp: FilenameURLPath_def)

lemma FilenameURLPath_otherwise:
  "(\<forall>d. FilePathPage Rel order s rel \<noteq> (Some d, True))
   \<Longrightarrow> FilenameURLPath Rel order s rel = Inr ([], False)"
  using FilePathPage_shape [of Rel order s rel]
  by (auto simp: FilenameURLPath_def)

lemma find_snoc:
  "List.find P (xs @ [x])
     = (case List.find P xs of Some y \<Rightarrow> Some y | None \<Rightarrow> if P x then Some x else None)"
  by (induction xs) auto

lemma FilenameURLs_loop_lookup:
  "FilenameURLs_loop Rel src ps m = Inr urls
   \<Longrightarrow> urls k = (case List.find (\<lambda>pg. Rel src (SourcePath pg) = Inr k) (rev ps) of
                   Some pg \<Rightarrow> Some (Permalink pg)
                 | None \<Rightarrow> m k)"
proof (induction ps arbitrary: m)
  case Nil
  then show ?case by simp
next
  case (Cons pg ps)
  from Cons.prems obtain key where key: "Rel src (SourcePath pg) = Inr key"
    and rest: "FilenameURLs_loop Rel src ps (m(key \<mapsto> Permalink pg)) = Inr urls"
    by (auto simp: MustRel_def split: sum.splits)
  from Cons.IH [OF rest] key show ?case
    by (auto simp: find_snoc split: option.splits)
qed

lemma FilenameURLs_loop_returns:
  "(\<forall>pg \<in> set ps. \<exists>key. Rel src (SourcePath pg) = Inr key)
   \<Longrightarrow> \<exists>urls. FilenameURLs_loop Rel src ps m = Inr urls"
  by (induction ps arbitrary: m) (auto simp: MustRel_def)

lemma FilenameURLs_loop_panics:
  "FilenameURLs_loop Rel src ps m = Inl e
   \<longleftrightarrow> (\<exists>pg. List.find (\<lambda>q. isl (Rel src (SourcePath q))) ps = Some pg
            \<and> Rel src (SourcePath pg) = Inl e)"
proof (induction ps arbitrary: m)
  case Nil
  show ?case by simp
next
  case (Cons p ps)
  show ?case
  proof (cases "Rel src (SourcePath p)")
    case (Inl e0)
    then show ?thesis by (auto simp: MustRel_def)
  next
    case (Inr key)
    then show ?thesis by (simp add: MustRel_def Cons.IH)
  qed
qed

text \<open>
  C5, as amended. \<open>FilenameURLPath(r)\<close> returns \<open>(url, true)\<close> exactly when
  \<open>FilePathPage(r)\<close> finds a document whose URL is \<open>url\<close>, and the empty string with
  \<open>false\<close> otherwise; it never panics. \<open>FilenameURLs\<close> does not scan \<open>Routes\<close>: it
  ranges over \<open>Pages()\<close>, the documents of the document list that are pages, in
  order, output or not. When every page's source path can be made relative to the source
  directory it returns a map; whenever it returns a map, the map sends \<open>k\<close> to the URL
  of the last page whose source path is \<open>k\<close> relative to the source directory, and has
  no entry for \<open>k\<close> when there is no such page. It panics exactly when some page's
  source path cannot be made relative, with the error of the first such page.
\<close>

theorem FilenameURL_compositions:
  "(FilenameURLPath Rel order s rel = Inr (url, True)
      \<longleftrightarrow> (\<exists>d. FilePathPage Rel order s rel = (Some d, True) \<and> url = Permalink d))
   \<and> ((\<forall>d. FilePathPage Rel order s rel \<noteq> (Some d, True))
      \<longrightarrow> FilenameURLPath Rel order s rel = Inr ([], False))
   \<and> (FilenameURLs Rel s = Inr urls
      \<longrightarrow> urls k = map_option Permalink
            (List.find (\<lambda>pg. Rel (SourceDir s) (SourcePath pg) = Inr k) (rev (Pages s))))
   \<and> ((\<forall>pg \<in> set (Pages s). \<exists>key. Rel (SourceDir s) (SourcePath pg) = Inr key)
      \<longrightarrow> (\<exists>m. FilenameURLs Rel s = Inr m))
   \<and> (FilenameURLs Rel s = Inl e
      \<longleftrightarrow> (\<exists>pg. List.find (\<lambda>q. isl (Rel (SourceDir s) (SourcePath q))) (Pages s) = Some pg
               \<and> Rel (SourceDir s) (SourcePath pg) = Inl e))"
proof -
  have a: "FilenameURLPath Rel order s rel = Inr (url, True)
      \<longleftrightarrow> (\<exists>d. FilePathPage Rel order s rel = (Some d, True) \<and> url = Permalink d)"
    by (rule FilenameURLPath_iff)
  have b: "(\<forall>d. FilePathPage Rel order s rel \<noteq> (Some d, True))
      \<longrightarrow> FilenameURLPath Rel order s rel = Inr ([], False)"
    using FilenameURLPath_otherwise [of Rel order s rel] by blast
  have c: "FilenameURLs Rel s = Inr urls
      \<longrightarrow> urls k = map_option Permalink
            (List.find (\<lambda>pg. Rel (SourceDir s) (SourcePath pg) = Inr k) (rev (Pages s)))"
    using FilenameURLs_loop_lookup [of Rel "SourceDir s" "Pages s" Map.empty urls k]
    by (auto simp: FilenameURLs_def split: option.splits)
  have d: "(\<forall>pg \<in> set (Pages s). \<exists>key. Rel (SourceDir s) (SourcePath pg) = Inr key)
      \<longrightarrow> (\<exists>m. FilenameURLs Rel s = Inr m)"
    using FilenameURLs_loop_returns [of "Pages s" Rel "SourceDir s" Map.empty]
    by (simp add: FilenameURLs_def)
  have e: "FilenameURLs Rel s = Inl e
      \<longleftrightarrow> (\<exists>pg. List.find (\<lambda>q. isl (Rel (SourceDir s) (SourcePath q))) (Pages s) = Some pg
               \<and> Rel (SourceDir s) (SourcePath pg) = Inl e)"
    unfolding FilenameURLs_def by (rule FilenameURLs_loop_panics)
  from a b c d e show ?thesis by (intro conjI)
qed

theorem FilenameURL_compositions_witness:
  "FilePathPage RelUnder [''/a/'', ''/style.css''] siteMixed ''a.md'' = (Some docA, True)
   \<and> FilenameURLPath RelUnder [''/a/'', ''/style.css''] siteMixed ''a.md'' = Inr (''/a/'', True)
   \<and> FilenameURLPath RelUnder [''/a/'', ''/style.css''] siteMixed ''b.md'' = Inr ([], False)
   \<and> FilenameURLs RelUnder siteMixed = Inr [''a.md'' \<mapsto> ''/a/'', ''draft.md'' \<mapsto> ''/draft.html'']
   \<and> [''a.md'' \<mapsto> ''/a/'', ''draft.md'' \<mapsto> ''/draft.html''] ''draft.md''
       = map_option Permalink
           (List.find (\<lambda>pg. RelUnder (SourceDir siteMixed) (SourcePath pg) = Inr ''draft.md'')
              (rev (Pages siteMixed)))
   \<and> (\<exists>m. FilenameURLs RelUnder siteMixed = Inr m)
   \<and> List.find (\<lambda>q. isl (RelUnder (SourceDir siteAbs) (SourcePath q))) (Pages siteAbs) = Some docAbs
   \<and> RelUnder (SourceDir siteAbs) (SourcePath docAbs) = Inl RelError
   \<and> FilenameURLs RelUnder siteAbs = Inl RelError"
proof -
  let ?o = "[''/a/'', ''/style.css'']"
  let ?m = "[''a.md'' \<mapsto> ''/a/'', ''draft.md'' \<mapsto> ''/draft.html'']"
  have f: "FilePathPage RelUnder ?o siteMixed ''a.md'' = (Some docA, True)"
    by code_simp
  have p: "Permalink docA = ''/a/''" by (simp add: docA_def)
  have g: "\<forall>d. FilePathPage RelUnder ?o siteMixed ''b.md'' \<noteq> (Some d, True)"
  proof -
    have "FilePathPage RelUnder ?o siteMixed ''b.md'' = (None, False)" by code_simp
    then show ?thesis by simp
  qed
  have r1: "RelUnder ''src'' ''src/a.md'' = Inr ''a.md''" by code_simp
  have r2: "RelUnder ''src'' ''src/draft.md'' = Inr ''draft.md''" by code_simp
  have u: "FilenameURLs RelUnder siteMixed = Inr ?m"
    by (simp add: FilenameURLs_def Pages_def siteMixed_def site0_def config0_def SourceDir_def
        MustRel_def docA_def docCss_def docDraft_def r1 r2)
  note T = FilenameURL_compositions
    [of RelUnder ?o siteMixed "''a.md''" "''/a/''" ?m "''draft.md''" RelError]
  note T' = FilenameURL_compositions
    [of RelUnder ?o siteMixed "''b.md''" "[]" ?m "''draft.md''" RelError]
  note A = FilenameURL_compositions
    [of RelUnder ?o siteAbs "''b.md''" "[]" ?m "''draft.md''" RelError]
  have e: "\<exists>d. FilePathPage RelUnder ?o siteMixed ''a.md'' = (Some d, True) \<and> ''/a/'' = Permalink d"
    using f p by simp
  have t1: "FilenameURLPath RelUnder ?o siteMixed ''a.md'' = Inr (''/a/'', True)"
    using e T [THEN conjunct1] by (rule rev_iffD2)
  have t2: "FilenameURLPath RelUnder ?o siteMixed ''b.md'' = Inr ([], False)"
    using g T' [THEN conjunct2, THEN conjunct1] by (rule rev_mp)
  have t3: "?m ''draft.md'' = map_option Permalink
           (List.find (\<lambda>pg. RelUnder (SourceDir siteMixed) (SourcePath pg) = Inr ''draft.md'')
              (rev (Pages siteMixed)))"
    using u T [THEN conjunct2, THEN conjunct2, THEN conjunct1] by (rule rev_mp)
  have q1: "RelUnder ''src'' ''/abs/x.md'' = Inl RelError" by code_simp
  have x1: "List.find (\<lambda>q. isl (RelUnder (SourceDir siteAbs) (SourcePath q))) (Pages siteAbs)
              = Some docAbs"
    by (simp add: Pages_def siteAbs_def site0_def config0_def SourceDir_def docA_def docAbs_def
        docDraft_def r1 q1)
  have x2: "RelUnder (SourceDir siteAbs) (SourcePath docAbs) = Inl RelError"
    by (simp add: siteAbs_def site0_def config0_def SourceDir_def docAbs_def q1)
  have x: "\<exists>pg. List.find (\<lambda>q. isl (RelUnder (SourceDir siteAbs) (SourcePath q))) (Pages siteAbs)
                 = Some pg
               \<and> RelUnder (SourceDir siteAbs) (SourcePath pg) = Inl RelError"
    using x1 x2 by (intro exI [of _ docAbs] conjI)
  have t4: "FilenameURLs RelUnder siteAbs = Inl RelError"
    using x A [THEN conjunct2, THEN conjunct2, THEN conjunct2, THEN conjunct2]
    by (rule rev_iffD2)
  have pgs: "Pages siteMixed = [docA, docDraft]"
    by (simp add: Pages_def siteMixed_def docA_def docCss_def docDraft_def)
  have sd: "SourceDir siteMixed = ''src''"
    by (simp add: SourceDir_def siteMixed_def site0_def config0_def)
  have a1: "\<exists>key. RelUnder (SourceDir siteMixed) (SourcePath docA) = Inr key"
    unfolding sd using r1 by (simp add: docA_def)
  have a2: "\<exists>key. RelUnder (SourceDir siteMixed) (SourcePath docDraft) = Inr key"
    unfolding sd using r2 by (simp add: docDraft_def)
  have al: "\<forall>pg \<in> set (Pages siteMixed).
              \<exists>key. RelUnder (SourceDir siteMixed) (SourcePath pg) = Inr key"
    using a1 a2 unfolding pgs by simp
  have t5: "\<exists>m. FilenameURLs RelUnder siteMixed = Inr m"
    using al T [THEN conjunct2, THEN conjunct2, THEN conjunct2, THEN conjunct1]
    by (rule rev_mp)
  from f t1 t2 u t3 t5 x1 x2 t4 show ?thesis by (intro conjI)
qed

text \<open>
  C5 as stated fails: the two functions range over different documents. In
  \<open>siteMixed\<close> the page that is not output has an entry in \<open>FilenameURLs\<close> and is
  not found by \<open>FilenameURLPath\<close>, and the routed static file is found by
  \<open>FilenameURLPath\<close> and has no entry in \<open>FilenameURLs\<close>.
\<close>

theorem FilenameURLs_population_counterexample:
  "FilenameURLs RelUnder siteMixed = Inr [''a.md'' \<mapsto> ''/a/'', ''draft.md'' \<mapsto> ''/draft.html'']
   \<and> FilenameURLPath RelUnder [''/a/'', ''/style.css''] siteMixed ''draft.md'' = Inr ([], False)
   \<and> FilenameURLPath RelUnder [''/a/'', ''/style.css''] siteMixed ''style.css''
       = Inr (''/style.css'', True)
   \<and> [''a.md'' \<mapsto> ''/a/'', ''draft.md'' \<mapsto> ''/draft.html''] ''style.css'' = (None :: string option)"
proof -
  have r1: "RelUnder ''src'' ''src/a.md'' = Inr ''a.md''" by code_simp
  have r2: "RelUnder ''src'' ''src/draft.md'' = Inr ''draft.md''" by code_simp
  have u: "FilenameURLs RelUnder siteMixed
             = Inr [''a.md'' \<mapsto> ''/a/'', ''draft.md'' \<mapsto> ''/draft.html'']"
    by (simp add: FilenameURLs_def Pages_def siteMixed_def site0_def config0_def SourceDir_def
        MustRel_def docA_def docCss_def docDraft_def r1 r2)
  have a: "FilenameURLPath RelUnder [''/a/'', ''/style.css''] siteMixed ''draft.md'' = Inr ([], False)"
    by code_simp
  have b: "FilenameURLPath RelUnder [''/a/'', ''/style.css''] siteMixed ''style.css''
       = Inr (''/style.css'', True)"
    by code_simp
  have c: "[''a.md'' \<mapsto> ''/a/'', ''draft.md'' \<mapsto> ''/draft.html''] ''style.css'' = (None :: string option)"
    by simp
  from u a b c show ?thesis by (intro conjI)
qed

section \<open>RendererManager and SetAbsoluteURL\<close>

text \<open>
  C7. \<open>RendererManager\<close> on a site whose renderer is still nil panics with the error
  "uninitialized rendering manager" and returns no value; on a site whose renderer is
  set it returns that renderer and does not panic. It panics in no other case.
\<close>

theorem RendererManager_uninitialized_panics:
  "(renderer s = None \<longrightarrow> RendererManager s = Inl UninitializedRenderingManager)
   \<and> (renderer s = Some m \<longrightarrow> RendererManager s = Inr m)
   \<and> ((\<exists>e. RendererManager s = Inl e) \<longleftrightarrow> renderer s = None)"
  by (auto simp: RendererManager_def split: option.splits)

theorem RendererManager_uninitialized_panics_witness:
  "renderer site0 = None \<and> RendererManager site0 = Inl UninitializedRenderingManager
   \<and> renderer siteReady = Some (Manager 7) \<and> RendererManager siteReady = Inr (Manager 7)"
proof -
  have a: "renderer site0 = None" by (simp add: site0_def)
  have b: "renderer siteReady = Some (Manager 7)" by (simp add: siteReady_def)
  from a b RendererManager_uninitialized_panics [of site0 "Manager 7"]
    RendererManager_uninitialized_panics [of siteReady "Manager 7"]
  show ?thesis by simp
qed

lemma SetAbsoluteURL_allocated:
  assumes "Variables (config s) = Some vars"
  shows "\<exists>s'. SetAbsoluteURL url s = (None, s')
     \<and> AbsoluteURL (config s') = url
     \<and> Variables (config s') = Some (vars(''url'' \<mapsto> VString url))
     \<and> (drop_val s = None \<longrightarrow> drop_val s' = None)
     \<and> (\<forall>d. drop_val s = Some d \<longrightarrow> drop_val s' = Some (d(''url'' \<mapsto> VString url)))
     \<and> (\<forall>d d' k. drop_val s = Some d \<and> drop_val s' = Some d' \<and> k \<noteq> ''url'' \<longrightarrow> d' k = d k)
     \<and> Routes s' = Routes s \<and> Collections s' = Collections s \<and> docs s' = docs s
     \<and> nonCollectionPages s' = nonCollectionPages s \<and> data s' = data s
     \<and> flags s' = flags s \<and> themeDir s' = themeDir s \<and> renderer s' = renderer s
     \<and> Source (config s') = Source (config s)
     \<and> Destination (config s') = Destination (config s)
     \<and> Include (config s') = Include (config s)
     \<and> Exclude_cfg (config s') = Exclude_cfg (config s)
     \<and> KeepFiles (config s') = KeepFiles (config s)
     \<and> Plugins (config s') = Plugins (config s)"
proof (cases "drop_val s")
  case None
  with assms show ?thesis by (simp add: SetAbsoluteURL_def)
next
  case (Some d)
  with assms show ?thesis by (simp add: SetAbsoluteURL_def)
qed

lemma SetAbsoluteURL_nil:
  "Variables (config s) = None
   \<Longrightarrow> SetAbsoluteURL url s = (Some NilMapAssignment, s\<lparr>config := (config s)\<lparr>AbsoluteURL := url\<rparr>\<rparr>)"
  by (simp add: SetAbsoluteURL_def)

lemma SetAbsoluteURL_cfgSet_frame:
  "config (SetAbsoluteURL_cfgSet Set url s)
       = Set ''url'' (VString url) ((config s)\<lparr>AbsoluteURL := url\<rparr>)
   \<and> (drop_val s = None \<longrightarrow> drop_val (SetAbsoluteURL_cfgSet Set url s) = None)
   \<and> (\<forall>d. drop_val s = Some d
         \<longrightarrow> drop_val (SetAbsoluteURL_cfgSet Set url s) = Some (d(''url'' \<mapsto> VString url)))
   \<and> Routes (SetAbsoluteURL_cfgSet Set url s) = Routes s
   \<and> Collections (SetAbsoluteURL_cfgSet Set url s) = Collections s
   \<and> docs (SetAbsoluteURL_cfgSet Set url s) = docs s
   \<and> nonCollectionPages (SetAbsoluteURL_cfgSet Set url s) = nonCollectionPages s
   \<and> data (SetAbsoluteURL_cfgSet Set url s) = data s
   \<and> flags (SetAbsoluteURL_cfgSet Set url s) = flags s
   \<and> themeDir (SetAbsoluteURL_cfgSet Set url s) = themeDir s
   \<and> renderer (SetAbsoluteURL_cfgSet Set url s) = renderer s"
  by (cases "drop_val s") (simp_all add: SetAbsoluteURL_cfgSet_def Let_def)

text \<open>
  C8, as amended. On a site whose configuration has its variables map allocated,
  \<open>SetAbsoluteURL(url)\<close> returns normally; afterwards the absolute URL of the
  configuration is \<open>url\<close> and the variable \<open>url\<close> is the string \<open>url\<close>, every other
  variable being as before; the drop dictionary stays nil if it was nil, and otherwise
  has its entry \<open>url\<close> set to \<open>url\<close> and every other entry as before; \<open>Routes\<close>,
  the collections, the document lists, the data, the flags, the theme directory, the
  renderer and the other configuration fields are unchanged. On a site whose variables
  map is nil the call panics, having written the absolute URL and nothing else. In the
  later copy of the function, which writes the variable through \<open>Set\<close>, the
  configuration after the call is what \<open>Set\<close> makes of the configuration with the
  absolute URL written; the drop dictionary and the other fields of the site are treated
  as in the first copy.
\<close>

theorem SetAbsoluteURL_frame:
  "(Variables (config s) = Some vars \<longrightarrow>
      (\<exists>s'. SetAbsoluteURL url s = (None, s')
         \<and> AbsoluteURL (config s') = url
         \<and> Variables (config s') = Some (vars(''url'' \<mapsto> VString url))
         \<and> (drop_val s = None \<longrightarrow> drop_val s' = None)
         \<and> (\<forall>d. drop_val s = Some d \<longrightarrow> drop_val s' = Some (d(''url'' \<mapsto> VString url)))
         \<and> (\<forall>d d' k. drop_val s = Some d \<and> drop_val s' = Some d' \<and> k \<noteq> ''url'' \<longrightarrow> d' k = d k)
         \<and> Routes s' = Routes s \<and> Collections s' = Collections s \<and> docs s' = docs s
         \<and> nonCollectionPages s' = nonCollectionPages s \<and> data s' = data s
         \<and> flags s' = flags s \<and> themeDir s' = themeDir s \<and> renderer s' = renderer s
         \<and> Source (config s') = Source (config s)
         \<and> Destination (config s') = Destination (config s)
         \<and> Include (config s') = Include (config s)
         \<and> Exclude_cfg (config s') = Exclude_cfg (config s)
         \<and> KeepFiles (config s') = KeepFiles (config s)
         \<and> Plugins (config s') = Plugins (config s)))
   \<and> (Variables (config s) = None \<longrightarrow>
        SetAbsoluteURL url s
          = (Some NilMapAssignment, s\<lparr>config := (config s)\<lparr>AbsoluteURL := url\<rparr>\<rparr>))
   \<and> (config (SetAbsoluteURL_cfgSet Set url s)
          = Set ''url'' (VString url) ((config s)\<lparr>AbsoluteURL := url\<rparr>)
        \<and> (drop_val s = None \<longrightarrow> drop_val (SetAbsoluteURL_cfgSet Set url s) = None)
        \<and> (\<forall>d. drop_val s = Some d
              \<longrightarrow> drop_val (SetAbsoluteURL_cfgSet Set url s) = Some (d(''url'' \<mapsto> VString url)))
        \<and> Routes (SetAbsoluteURL_cfgSet Set url s) = Routes s
        \<and> Collections (SetAbsoluteURL_cfgSet Set url s) = Collections s
        \<and> docs (SetAbsoluteURL_cfgSet Set url s) = docs s
        \<and> nonCollectionPages (SetAbsoluteURL_cfgSet Set url s) = nonCollectionPages s
        \<and> data (SetAbsoluteURL_cfgSet Set url s) = data s
        \<and> flags (SetAbsoluteURL_cfgSet Set url s) = flags s
        \<and> themeDir (SetAbsoluteURL_cfgSet Set url s) = themeDir s
        \<and> renderer (SetAbsoluteURL_cfgSet Set url s) = renderer s)"
proof (intro conjI impI)
  assume "Variables (config s) = Some vars"
  then show "\<exists>s'. SetAbsoluteURL url s = (None, s')
         \<and> AbsoluteURL (config s') = url
         \<and> Variables (config s') = Some (vars(''url'' \<mapsto> VString url))
         \<and> (drop_val s = None \<longrightarrow> drop_val s' = None)
         \<and> (\<forall>d. drop_val s = Some d \<longrightarrow> drop_val s' = Some (d(''url'' \<mapsto> VString url)))
         \<and> (\<forall>d d' k. drop_val s = Some d \<and> drop_val s' = Some d' \<and> k \<noteq> ''url'' \<longrightarrow> d' k = d k)
         \<and> Routes s' = Routes s \<and> Collections s' = Collections s \<and> docs s' = docs s
         \<and> nonCollectionPages s' = nonCollectionPages s \<and> data s' = data s
         \<and> flags s' = flags s \<and> themeDir s' = themeDir s \<and> renderer s' = renderer s
         \<and> Source (config s') = Source (config s)
         \<and> Destination (config s') = Destination (config s)
         \<and> Include (config s') = Include (config s)
         \<and> Exclude_cfg (config s') = Exclude_cfg (config s)
         \<and> KeepFiles (config s') = KeepFiles (config s)
         \<and> Plugins (config s') = Plugins (config s)"
    by (rule SetAbsoluteURL_allocated)
next
  assume "Variables (config s) = None"
  then show "SetAbsoluteURL url s
          = (Some NilMapAssignment, s\<lparr>config := (config s)\<lparr>AbsoluteURL := url\<rparr>\<rparr>)"
    by (rule SetAbsoluteURL_nil)
qed (simp_all add: SetAbsoluteURL_cfgSet_frame)

theorem SetAbsoluteURL_frame_witness:
  "Variables (config siteReady) = Some Map.empty
   \<and> (\<exists>s'. SetAbsoluteURL ''http://localhost:4000'' siteReady = (None, s')
        \<and> AbsoluteURL (config s') = ''http://localhost:4000''
        \<and> Variables (config s') = Some [''url'' \<mapsto> VString ''http://localhost:4000'']
        \<and> drop_val s' = Some [''title'' \<mapsto> VString ''Blog'', ''url'' \<mapsto> VString ''http://localhost:4000'']
        \<and> Routes s' = Routes siteReady \<and> docs s' = docs siteReady)
   \<and> drop_val site0 = None
   \<and> drop_val (snd (SetAbsoluteURL ''http://localhost:4000'' site0)) = None
   \<and> Variables (config siteNilVars) = None
   \<and> fst (SetAbsoluteURL ''http://localhost:4000'' siteNilVars) = Some NilMapAssignment
   \<and> Variables (config (SetAbsoluteURL_cfgSet SetVariable ''http://localhost:4000'' siteNilVars))
       = Some [''url'' \<mapsto> VString ''http://localhost:4000'']"
proof -
  let ?u = "''http://localhost:4000''"
  note T = SetAbsoluteURL_frame [of siteReady Map.empty ?u SetVariable]
  note N = SetAbsoluteURL_frame [of siteNilVars Map.empty ?u SetVariable]
  have v: "Variables (config siteReady) = Some Map.empty"
    by (simp add: siteReady_def site0_def config0_def)
  have d: "drop_val siteReady = Some [''title'' \<mapsto> VString ''Blog'', ''url'' \<mapsto> VString ''http://old'']"
    by (simp add: siteReady_def)
  from v T [THEN conjunct1]
  obtain s' where s: "SetAbsoluteURL ?u siteReady = (None, s')"
    "AbsoluteURL (config s') = ?u"
    "Variables (config s') = Some [''url'' \<mapsto> VString ?u]"
    "\<forall>d. drop_val siteReady = Some d \<longrightarrow> drop_val s' = Some (d(''url'' \<mapsto> VString ?u))"
    "Routes s' = Routes siteReady" "docs s' = docs siteReady"
    by blast
  from s(4) d have dd: "drop_val s' = Some [''title'' \<mapsto> VString ''Blog'', ''url'' \<mapsto> VString ?u]"
    by simp
  have a: "\<exists>s'. SetAbsoluteURL ?u siteReady = (None, s')
        \<and> AbsoluteURL (config s') = ?u
        \<and> Variables (config s') = Some [''url'' \<mapsto> VString ?u]
        \<and> drop_val s' = Some [''title'' \<mapsto> VString ''Blog'', ''url'' \<mapsto> VString ?u]
        \<and> Routes s' = Routes siteReady \<and> docs s' = docs siteReady"
    using s dd by (intro exI [of _ s'] conjI)
  have n: "Variables (config siteNilVars) = None"
    by (simp add: siteNilVars_def)
  from n N [THEN conjunct2, THEN conjunct1]
  have p: "fst (SetAbsoluteURL ?u siteNilVars) = Some NilMapAssignment" by simp
  from N [THEN conjunct2, THEN conjunct2, THEN conjunct1]
  have c: "Variables (config (SetAbsoluteURL_cfgSet SetVariable ?u siteNilVars))
       = Some [''url'' \<mapsto> VString ?u]"
    by (simp add: SetVariable_def siteNilVars_def)
  note Z = SetAbsoluteURL_frame [of site0 Map.empty ?u SetVariable]
  have v0: "Variables (config site0) = Some Map.empty"
    by (simp add: site0_def config0_def)
  have d0: "drop_val site0 = None" by (simp add: site0_def)
  have "\<exists>s'. SetAbsoluteURL ?u site0 = (None, s')
          \<and> (drop_val site0 = None \<longrightarrow> drop_val s' = None)"
    using Z [THEN conjunct1, THEN mp, OF v0]
    by (elim exE conjE) (intro exI conjI; assumption)
  then obtain s0 where z: "SetAbsoluteURL ?u site0 = (None, s0)"
    "drop_val site0 = None \<longrightarrow> drop_val s0 = None"
    by (elim exE conjE)
  from z d0 have d1: "drop_val (snd (SetAbsoluteURL ?u site0)) = None" by simp
  from v a d0 d1 n p c show ?thesis by (intro conjI)
qed

text \<open>
  C8 as stated fails on a site whose variables map is nil: the call panics, the absolute
  URL is written and the variable \<open>url\<close> is not.
\<close>

theorem SetAbsoluteURL_nil_map_counterexample:
  "Variables (config siteNilVars) = None
   \<and> fst (SetAbsoluteURL ''http://localhost:4000'' siteNilVars) = Some NilMapAssignment
   \<and> Variables (config (snd (SetAbsoluteURL ''http://localhost:4000'' siteNilVars))) = None
   \<and> AbsoluteURL (config (snd (SetAbsoluteURL ''http://localhost:4000'' siteNilVars)))
       = ''http://localhost:4000''"
  by (simp add: siteNilVars_def SetAbsoluteURL_def)

section \<open>runHooks\<close>

lemma logged_apply:
  "logged h p (st, log) = (case h p st of (err, st') \<Rightarrow> (err, (st', log @ [(p, err)])))"
  by (simp add: logged_def)

lemma dispatched_skip:
  "dispatched resolved err calls ok rest
   \<Longrightarrow> dispatched (p # resolved) err ((p, None) # calls) (p # ok) rest"
  by (auto simp: dispatched_def)

lemma dispatched_fail: "dispatched (p # resolved) (Some x) [(p, Some x)] [] (p # resolved)"
  by (simp add: dispatched_def)

lemma dispatched_nil: "dispatched [] None [] [] []"
  by (simp add: dispatched_def)

lemma runHooks_loop_logged:
  "runHooks_loop Lookup (logged h) names (st, log) = (err, (st', log'))
   \<Longrightarrow> runHooks_loop Lookup h names st = (err, st')
       \<and> (\<exists>calls ok rest. log' = log @ calls
             \<and> dispatched (List.map_filter Lookup names) err calls ok rest)"
proof (induction names arbitrary: st log)
  case Nil
  then have "err = None" "st' = st" "log' = log" by simp_all
  with dispatched_nil show ?case by auto
next
  case (Cons name names)
  show ?case
  proof (cases "Lookup name")
    case None
    with Cons.prems have "runHooks_loop Lookup (logged h) names (st, log) = (err, (st', log'))"
      by simp
    from Cons.IH [OF this] None show ?thesis by simp
  next
    case (Some p)
    obtain e st1 where h: "h p st = (e, st1)" by (cases "h p st") auto
    show ?thesis
    proof (cases e)
      case None
      with Cons.prems Some h
      have "runHooks_loop Lookup (logged h) names (st1, log @ [(p, None)]) = (err, (st', log'))"
        by (simp add: logged_apply)
      from Cons.IH [OF this]
      have r1: "runHooks_loop Lookup h names st1 = (err, st')"
        and ex: "\<exists>calls ok rest. log' = (log @ [(p, None)]) @ calls
                  \<and> dispatched (List.map_filter Lookup names) err calls ok rest"
        by simp_all
      from ex obtain calls ok rest where r2: "log' = (log @ [(p, None)]) @ calls"
        and r3: "dispatched (List.map_filter Lookup names) err calls ok rest"
        by (elim exE conjE)
      have a: "runHooks_loop Lookup h (name # names) st = (err, st')"
        using Some h None r1 by simp
      have b: "log' = log @ ((p, None) # calls)" using r2 by simp
      have c: "dispatched (List.map_filter Lookup (name # names)) err ((p, None) # calls) (p # ok) rest"
        using dispatched_skip [OF r3, of p] Some by simp
      show ?thesis
      proof (intro conjI exI)
        show "runHooks_loop Lookup h (name # names) st = (err, st')" by (rule a)
        show "log' = log @ ((p, None) # calls)" by (rule b)
        show "dispatched (List.map_filter Lookup (name # names)) err ((p, None) # calls) (p # ok) rest"
          by (rule c)
      qed
    next
      case (Some x)
      with Cons.prems \<open>Lookup name = Some p\<close> h
      have res: "err = Some x" "st' = st1" "log' = log @ [(p, Some x)]"
        by (auto simp: logged_apply)
      have a: "runHooks_loop Lookup h (name # names) st = (err, st')"
        using \<open>Lookup name = Some p\<close> h Some res by simp
      have c: "dispatched (List.map_filter Lookup (name # names)) err [(p, Some x)] []
                 (p # List.map_filter Lookup names)"
        using dispatched_fail [of p "List.map_filter Lookup names" x] \<open>Lookup name = Some p\<close> res(1)
        by simp
      show ?thesis
      proof (intro conjI exI)
        show "runHooks_loop Lookup h (name # names) st = (err, st')" by (rule a)
        show "log' = log @ [(p, Some x)]" by (rule res(3))
        show "dispatched (List.map_filter Lookup (name # names)) err [(p, Some x)] []
                 (p # List.map_filter Lookup names)" by (rule c)
      qed
    qed
  qed
qed

text \<open>
  C9. Run \<open>runHooks\<close> with a callback \<open>h\<close> that also records its invocations. The
  result and the final state are those of the run with \<open>h\<close> alone. The plugins invoked
  are, in configured order, a leading part of the plugins that the configured names
  resolve to, names that do not resolve being skipped. If the result is nil, every
  resolved plugin was invoked and each returned nil. If the result is an error \<open>e\<close>,
  the plugins before the last invoked one returned nil, the last invoked one returned
  \<open>e\<close>, and no plugin after it was invoked.
\<close>

theorem runHooks_first_error:
  assumes "runHooks Lookup (logged h) s (st, []) = (err, (st', log))"
  shows "runHooks Lookup h s st = (err, st')
       \<and> (\<exists>ok rest. List.map_filter Lookup (Plugins (config s)) = ok @ rest
             \<and> (err = None \<longrightarrow> rest = [] \<and> log = map (\<lambda>p. (p, None)) ok)
             \<and> (\<forall>e. err = Some e \<longrightarrow>
                   (\<exists>p rest'. rest = p # rest' \<and> log = map (\<lambda>p. (p, None)) ok @ [(p, Some e)])))"
proof -
  from assms have "runHooks_loop Lookup (logged h) (Plugins (config s)) (st, []) = (err, (st', log))"
    by (simp add: runHooks_def)
  from runHooks_loop_logged [OF this]
  have r1: "runHooks_loop Lookup h (Plugins (config s)) st = (err, st')"
    and ex: "\<exists>calls ok rest. log = [] @ calls
               \<and> dispatched (List.map_filter Lookup (Plugins (config s))) err calls ok rest"
    by simp_all
  from ex obtain calls ok rest where r2: "log = [] @ calls"
    and r3: "dispatched (List.map_filter Lookup (Plugins (config s))) err calls ok rest"
    by (elim exE conjE)
  from r2 have i: "calls = log" by simp
  from r1 have a: "runHooks Lookup h s st = (err, st')" by (simp add: runHooks_def)
  from r3 i have b: "List.map_filter Lookup (Plugins (config s)) = ok @ rest
             \<and> (err = None \<longrightarrow> rest = [] \<and> log = map (\<lambda>p. (p, None)) ok)
             \<and> (\<forall>e. err = Some e \<longrightarrow>
                   (\<exists>p rest'. rest = p # rest' \<and> log = map (\<lambda>p. (p, None)) ok @ [(p, Some e)]))"
    by (simp add: dispatched_def)
  show ?thesis
  proof (intro conjI exI)
    show "runHooks Lookup h s st = (err, st')" by (rule a)
    show "List.map_filter Lookup (Plugins (config s)) = ok @ rest" using b by (rule conjunct1)
    show "err = None \<longrightarrow> rest = [] \<and> log = map (\<lambda>p. (p, None)) ok"
      using b by (elim conjE)
    show "\<forall>e. err = Some e \<longrightarrow>
            (\<exists>p rest'. rest = p # rest' \<and> log = map (\<lambda>p. (p, None)) ok @ [(p, Some e)])"
      using b by (elim conjE)
  qed
qed

theorem runHooks_first_error_witness:
  "runHooks registry (logged hookFailsAt3) sitePlugins (0, [])
     = (Some ''boom'', (4, [(1, None), (3, Some ''boom'')]))
   \<and> runHooks registry hookFailsAt3 sitePlugins 0 = (Some ''boom'', 4)
   \<and> List.map_filter registry (Plugins (config sitePlugins)) = [1, 3] @ [4]"
proof -
  have r: "runHooks registry (logged hookFailsAt3) sitePlugins (0, [])
     = (Some ''boom'', (4, [(1, None), (3, Some ''boom'')]))"
    by code_simp
  have m: "List.map_filter registry (Plugins (config sitePlugins)) = [1, 3] @ [4]"
    by code_simp
  from runHooks_first_error [OF r]
  have "runHooks registry hookFailsAt3 sitePlugins 0 = (Some ''boom'', 4)"
    by (rule conjunct1)
  with r m show ?thesis by (intro conjI)
qed

end
